theory Spec2Isabelle
  imports Complex_Main "HOL-Library.Sublist"
begin

section \<open>JavaScript strings\<close>

text \<open>
  A JavaScript string is modelled as a \<^typ>\<open>string\<close>: a list of 8-bit code units. Every
  pattern, keyword and literal of \<^verbatim>\<open>server.js\<close> is ASCII, and case folding is the ASCII one
  (a non-ASCII code unit never folds to an ASCII letter in a non-unicode JavaScript pattern).
  A value that may be \<^verbatim>\<open>undefined\<close> or \<^verbatim>\<open>null\<close> is an \<^typ>\<open>'a option\<close>.
\<close>

definition upperAZ :: string where
  "upperAZ = ''ABCDEFGHIJKLMNOPQRSTUVWXYZ''"

definition lowerAZ :: string where
  "lowerAZ = ''abcdefghijklmnopqrstuvwxyz''"

definition digits09 :: string where
  "digits09 = ''0123456789''"

definition toLowerChar :: "char \<Rightarrow> char" where
  "toLowerChar c = (case map_of (zip upperAZ lowerAZ) c of Some d \<Rightarrow> d | None \<Rightarrow> c)"

definition toLowerCase :: "string \<Rightarrow> string" where
  "toLowerCase s = map toLowerChar s"

text \<open>White space and line terminators of the language, within the 8-bit range.\<close>

definition js_space :: string where
  "js_space = [CHR 0x09, CHR 0x0A, CHR 0x0B, CHR 0x0C, CHR 0x0D, CHR 0x20, CHR 0xA0]"

definition is_space :: "char \<Rightarrow> bool" where
  "is_space c = (c \<in> set js_space)"

definition trim :: "string \<Rightarrow> string" where
  "trim s = rev (dropWhile is_space (rev (dropWhile is_space s)))"

definition startsWith :: "string \<Rightarrow> string \<Rightarrow> bool" where
  "startsWith s p = prefix p s"

definition endsWith :: "string \<Rightarrow> string \<Rightarrow> bool" where
  "endsWith s p = suffix p s"

text \<open>\<^verbatim>\<open>s.includes(k)\<close>: \<open>k\<close> occurs in \<open>s\<close> as a contiguous substring.\<close>

fun includes_str :: "string \<Rightarrow> string \<Rightarrow> bool" where
  "includes_str [] k = (k = [])"
| "includes_str (c # cs) k = (prefix k (c # cs) \<or> includes_str cs k)"

text \<open>\<^verbatim>\<open>s.substring(0, n)\<close>.\<close>

definition substring0 :: "string \<Rightarrow> nat \<Rightarrow> string" where
  "substring0 s n = take n s"

text \<open>\<^verbatim>\<open>s.split(sep)\<close> for a one-character separator: never empty.\<close>

fun split_on :: "char \<Rightarrow> string \<Rightarrow> string list" where
  "split_on sep [] = [[]]"
| "split_on sep (c # cs) =
     (if c = sep then [] # split_on sep cs
      else (case split_on sep cs of
              [] \<Rightarrow> [[c]]
            | p # ps \<Rightarrow> (c # p) # ps))"

text \<open>Template interpolation \<^verbatim>\<open>${v}\<close> of a value that may be undefined.\<close>

definition tpl :: "string option \<Rightarrow> string" where
  "tpl v = (case v of None \<Rightarrow> ''undefined'' | Some s \<Rightarrow> s)"

text \<open>Truthiness of a string that may be undefined: present and not empty.\<close>

definition truthy :: "string option \<Rightarrow> bool" where
  "truthy v = (case v of None \<Rightarrow> False | Some s \<Rightarrow> s \<noteq> [])"

text \<open>\<^verbatim>\<open>a || b\<close> on strings that may be undefined, with a string default.\<close>

definition or_else :: "string option \<Rightarrow> string \<Rightarrow> string" where
  "or_else v d = (if truthy v then the v else d)"

text \<open>Decimal rendering of a non-negative integer, as \<^verbatim>\<open>String(n)\<close> gives it.\<close>

fun digit_char :: "nat \<Rightarrow> char" where
  "digit_char n = digits09 ! (n mod 10)"

function nat_str :: "nat \<Rightarrow> string" where
  "nat_str n = (if n < 10 then [digit_char n] else nat_str (n div 10) @ [digit_char n])"
  by pat_completeness auto
termination
  by (relation "measure id") auto

declare nat_str.simps [simp del]


text \<open>
  Order-preserving removal of duplicates, as \<^verbatim>\<open>[...new Set(xs)]\<close> does it: a value is
  inserted when the set does not hold it yet, and the set iterates in insertion order.
\<close>

definition set_add :: "'a list \<Rightarrow> 'a \<Rightarrow> 'a list" where
  "set_add seen x = (if x \<in> set seen then seen else seen @ [x])"

definition new_Set :: "'a list \<Rightarrow> 'a list" where
  "new_Set xs = foldl set_add [] xs"

text \<open>
  \<^verbatim>\<open>arr.findIndex(p)\<close> (\<open>None\<close> for \<open>-1\<close>) and the idiom
  \<^verbatim>\<open>arr.filter((x, index, arr) => arr.findIndex(y => key(y) === key(x)) === index)\<close>.
\<close>

fun findIndex :: "('a \<Rightarrow> bool) \<Rightarrow> 'a list \<Rightarrow> nat option" where
  "findIndex p [] = None"
| "findIndex p (x # xs) = (if p x then Some 0 else map_option Suc (findIndex p xs))"

definition filter_first_index :: "('a \<Rightarrow> 'k) \<Rightarrow> 'a list \<Rightarrow> 'a list" where
  "filter_first_index key arr =
     map snd (filter (\<lambda>(index, x). findIndex (\<lambda>y. key y = key x) arr = Some index)
                     (enumerate 0 arr))"

section \<open>Regular expressions\<close>

text \<open>
  The patterns of \<^verbatim>\<open>server.js\<close> are built from character classes, bounded and unbounded
  repetition of one class (greedy, or lazy as in \<^verbatim>\<open>[\s\S]*?\<close>), sequence, alternation, one
  capture group and the word boundary \<^verbatim>\<open>\b\<close>. The matcher is the backtracking one of the
  language: \<open>ms\<close> lists every way the pattern matches at a position, in the order in
  which backtracking tries them, so the head of the list is the match JavaScript reports.
\<close>

datatype cls = Pos "char list" | Neg "char list"

datatype rx =
    Rep cls nat "nat option" bool
  | Seq rx rx
  | Alt rx rx
  | Grp rx
  | WordB
  | Eps

text \<open>
  The state of one attempt: the code unit before the position (for \<^verbatim>\<open>\b\<close>), the input
  from the position on, and the text of capture group 1 when it has matched.
\<close>

record mstate =
  prev :: "char option"
  rest :: string
  cap :: "string option"

text \<open>Case folding under the \<^verbatim>\<open>i\<close> flag.\<close>

definition canon :: "bool \<Rightarrow> char \<Rightarrow> char" where
  "canon ci c = (if ci then toLowerChar c else c)"

fun cls_ok :: "bool \<Rightarrow> cls \<Rightarrow> char \<Rightarrow> bool" where
  "cls_ok ci (Pos cs) c = (canon ci c \<in> set (map (canon ci) cs))"
| "cls_ok ci (Neg cs) c = (canon ci c \<notin> set (map (canon ci) cs))"

definition word_chars :: string where
  "word_chars = lowerAZ @ upperAZ @ digits09 @ ''_''"

definition is_word :: "char option \<Rightarrow> bool" where
  "is_word c = (case c of None \<Rightarrow> False | Some x \<Rightarrow> x \<in> set word_chars)"

definition advance :: "mstate \<Rightarrow> nat \<Rightarrow> mstate" where
  "advance st k =
     (if k = 0 then st
      else st\<lparr>prev := Some (rest st ! (k - 1)), rest := drop k (rest st)\<rparr>)"

text \<open>The repetition counts to try, most first when greedy, fewest first when lazy.\<close>

definition rep_counts :: "nat \<Rightarrow> nat \<Rightarrow> bool \<Rightarrow> nat list" where
  "rep_counts lo hi greedy = (if greedy then rev [lo..<Suc hi] else [lo..<Suc hi])"

fun ms :: "bool \<Rightarrow> rx \<Rightarrow> mstate \<Rightarrow> mstate list" where
  "ms ci (Rep cl lo hi greedy) st =
     (let avail = length (takeWhile (cls_ok ci cl) (rest st));
          most = (case hi of None \<Rightarrow> avail | Some h \<Rightarrow> min h avail)
      in map (advance st) (rep_counts lo most greedy))"
| "ms ci (Seq r1 r2) st = concat (map (ms ci r2) (ms ci r1 st))"
| "ms ci (Alt r1 r2) st = ms ci r1 st @ ms ci r2 st"
| "ms ci (Grp r) st =
     map (\<lambda>st'. st'\<lparr>cap := Some (take (length (rest st) - length (rest st')) (rest st))\<rparr>)
         (ms ci r st)"
| "ms ci WordB st =
     (if is_word (prev st) \<noteq> is_word (case rest st of [] \<Rightarrow> None | c # _ \<Rightarrow> Some c)
      then [st] else [])"
| "ms ci Eps st = [st]"

text \<open>
  One match: the text before it (since the start of the search), the matched text,
  capture group 1, and the text after it.
\<close>

record rmatch =
  m_pre :: string
  m_text :: string
  m_group :: "string option"
  m_post :: string

text \<open>The leftmost match at or after the start of \<open>s\<close>; \<open>p\<close> is the code unit before \<open>s\<close>.\<close>

fun search :: "bool \<Rightarrow> rx \<Rightarrow> char option \<Rightarrow> string \<Rightarrow> rmatch option" where
  "search ci r p s =
     (case ms ci r \<lparr>prev = p, rest = s, cap = None\<rparr> of
        st # _ \<Rightarrow> Some \<lparr>m_pre = [], m_text = take (length s - length (rest st)) s,
                         m_group = cap st, m_post = rest st\<rparr>
      | [] \<Rightarrow> (case s of
                 [] \<Rightarrow> None
               | c # cs \<Rightarrow> map_option (\<lambda>m. m\<lparr>m_pre := c # m_pre m\<rparr>) (search ci r (Some c) cs)))"

declare search.simps [simp del]

text \<open>
  All matches under the \<^verbatim>\<open>g\<close> flag, each with the text between it and the match before,
  and the text after the last match. After an empty match the search resumes one code unit
  further on, as \<^verbatim>\<open>lastIndex\<close> does.
\<close>

fun push_char :: "char \<Rightarrow> rmatch list \<times> string \<Rightarrow> rmatch list \<times> string" where
  "push_char c ([], tail) = ([], c # tail)"
| "push_char c (m # rs, tail) = (m\<lparr>m_pre := c # m_pre m\<rparr> # rs, tail)"

function scan :: "bool \<Rightarrow> rx \<Rightarrow> char option \<Rightarrow> string \<Rightarrow> rmatch list \<times> string" where
  "scan ci r p s =
     (case search ci r p s of
        None \<Rightarrow> ([], s)
      | Some m \<Rightarrow>
          if m_text m \<noteq> [] \<and> length (m_post m) < length s
          then (case scan ci r (Some (last (m_text m))) (m_post m) of
                  (rs, tail) \<Rightarrow> (m # rs, tail))
          else (case m_post m of
                  [] \<Rightarrow> ([m], [])
                | c # cs \<Rightarrow>
                    if length cs < length s
                    then (case push_char c (scan ci r (Some c) cs) of
                            (rs, tail) \<Rightarrow> (m # rs, tail))
                    else ([m], c # cs)))"
  by pat_completeness auto
termination
  by (relation "measure (\<lambda>(ci, r, p, s). length s)") auto

declare scan.simps [simp del]

text \<open>\<^verbatim>\<open>s.match(/r/g)\<close>: the matched texts; the empty list stands for \<^verbatim>\<open>null\<close>.\<close>

definition match_all :: "bool \<Rightarrow> rx \<Rightarrow> string \<Rightarrow> string list" where
  "match_all ci r s = map m_text (fst (scan ci r None s))"

text \<open>\<^verbatim>\<open>s.match(/r/)\<close> without the \<^verbatim>\<open>g\<close> flag: the first match or \<^verbatim>\<open>null\<close>.\<close>

definition match_first :: "bool \<Rightarrow> rx \<Rightarrow> string \<Rightarrow> rmatch option" where
  "match_first ci r s = search ci r None s"

text \<open>\<^verbatim>\<open>s.replace(/r/g, rep)\<close> for a replacement text without \<^verbatim>\<open>$\<close>.\<close>

definition replace_all :: "bool \<Rightarrow> rx \<Rightarrow> string \<Rightarrow> string \<Rightarrow> string" where
  "replace_all ci r rep s =
     (case scan ci r None s of
        (rs, tail) \<Rightarrow> concat (map (\<lambda>m. m_pre m @ rep) rs) @ tail)"

text \<open>
  \<^verbatim>\<open>s.replace(/r/, '$1')\<close>: the first match is replaced by capture group 1 (the empty
  string when the group took no part); without a match the string is unchanged.
\<close>

definition replace_first_group :: "bool \<Rightarrow> rx \<Rightarrow> string \<Rightarrow> string" where
  "replace_first_group ci r s =
     (case search ci r None s of
        None \<Rightarrow> s
      | Some m \<Rightarrow> m_pre m @ (case m_group m of None \<Rightarrow> [] | Some g \<Rightarrow> g) @ m_post m)"

text \<open>Shorthands for writing the patterns of the source.\<close>

definition one :: "cls \<Rightarrow> rx" where
  "one cl = Rep cl 1 (Some 1) True"

definition opt :: "cls \<Rightarrow> rx" where
  "opt cl = Rep cl 0 (Some 1) True"

definition plus :: "cls \<Rightarrow> rx" where
  "plus cl = Rep cl 1 None True"

definition star :: "cls \<Rightarrow> rx" where
  "star cl = Rep cl 0 None True"

definition star_lazy :: "cls \<Rightarrow> rx" where
  "star_lazy cl = Rep cl 0 None False"

definition lit :: "char \<Rightarrow> rx" where
  "lit c = one (Pos [c])"

fun seqs :: "rx list \<Rightarrow> rx" where
  "seqs [] = Eps"
| "seqs [r] = r"
| "seqs (r # rs) = Seq r (seqs rs)"

fun alts :: "rx list \<Rightarrow> rx" where
  "alts [] = Eps"
| "alts [r] = r"
| "alts (r # rs) = Alt r (alts rs)"

definition lits :: "string \<Rightarrow> rx" where
  "lits s = seqs (map lit s)"

definition quote :: cls where
  "quote = Pos [CHR 0x22, CHR 0x27]"

definition nonquote :: cls where
  "nonquote = Neg [CHR 0x22, CHR 0x27]"

definition digit :: cls where
  "digit = Pos digits09"

definition anychar :: cls where
  "anychar = Neg []"

text \<open>
  Two measures of a pattern, for reasoning about its matches: the least number of code
  units a match consumes, and whether every match sets capture group 1.
\<close>

fun minlen :: "rx \<Rightarrow> nat" where
  "minlen (Rep cl lo hi g) = lo"
| "minlen (Seq a b) = minlen a + minlen b"
| "minlen (Alt a b) = min (minlen a) (minlen b)"
| "minlen (Grp r) = minlen r"
| "minlen WordB = 0"
| "minlen Eps = 0"

fun captures :: "rx \<Rightarrow> bool" where
  "captures (Rep cl lo hi g) = False"
| "captures (Seq a b) = (captures a \<or> captures b)"
| "captures (Alt a b) = (captures a \<and> captures b)"
| "captures (Grp r) = True"
| "captures WordB = False"
| "captures Eps = False"

section \<open>Errors\<close>

text \<open>
  A thrown exception is a value: \<open>Inl\<close> of the error, whose \<^verbatim>\<open>message\<close> the handlers read.
  A \<^verbatim>\<open>try { ... } catch (error) { ... }\<close> block is a case distinction on the sum.
\<close>

datatype js_error = JSError (message: string)

type_synonym 'a result = "js_error + 'a"

definition try_catch :: "'a result \<Rightarrow> (js_error \<Rightarrow> 'a result) \<Rightarrow> 'a result" where
  "try_catch body handler = (case body of Inl e \<Rightarrow> handler e | Inr v \<Rightarrow> Inr v)"

text \<open>Sequencing: an exception in the first step skips the rest.\<close>

definition and_then :: "'a result \<Rightarrow> ('a \<Rightarrow> 'b result) \<Rightarrow> 'b result" where
  "and_then m f = (case m of Inl e \<Rightarrow> Inl e | Inr v \<Rightarrow> f v)"

text \<open>\<^verbatim>\<open>xs.map(f)\<close> for a callback that may throw: the first exception ends the loop.\<close>

fun map_try :: "('a \<Rightarrow> 'b result) \<Rightarrow> 'a list \<Rightarrow> 'b list result" where
  "map_try f [] = Inr []"
| "map_try f (x # xs) =
     (case f x of
        Inl e \<Rightarrow> Inl e
      | Inr y \<Rightarrow> (case map_try f xs of Inl e \<Rightarrow> Inl e | Inr ys \<Rightarrow> Inr (y # ys)))"

section \<open>Content Extractor\<close>

text \<open>
  \<^verbatim>\<open>new URL(baseUrl)\<close> is the platform's URL parser, not code of the repository: it is a
  parameter \<open>parseURL\<close> of the functions that call it, \<open>None\<close> when the constructor throws.
  Only the \<^verbatim>\<open>origin\<close> and \<^verbatim>\<open>pathname\<close> of the parsed URL are read.
\<close>

record url_parts =
  origin :: string
  pathname :: string

type_synonym url_parser = "string \<Rightarrow> url_parts option"

subsection \<open>extractBusinessInfo\<close>

record business_info =
  email :: "string option"
  phone :: "string option"
  address :: "string option"

text \<open>\<^verbatim>\<open>/\b[A-Za-z0-9._%+-]+@[A-Za-z0-9.-]+\.[A-Z|a-z]{2,}\b/g\<close>\<close>

definition emailRegex :: rx where
  "emailRegex = seqs
     [WordB,
      plus (Pos (upperAZ @ lowerAZ @ digits09 @ ''._%+-'')),
      lit CHR ''@'',
      plus (Pos (upperAZ @ lowerAZ @ digits09 @ ''.-'')),
      lit CHR ''.'',
      Rep (Pos (upperAZ @ ''|'' @ lowerAZ)) 2 None True,
      WordB]"

text \<open>
  \<^verbatim>\<open>/(\(?\d{3}\)?[-.\s]?\d{3}[-.\s]?\d{4})|(\+?\d{1,3}[-.\s]?\(?\d{1,4}\)?[-.\s]?\d{1,4}[-.\s]?\d{1,9})/g\<close>;
  the two groups are read by nobody (only the whole match is), so they are plain grouping.
\<close>

definition phone_sep :: cls where
  "phone_sep = Pos (''-.'' @ js_space)"

definition phoneRegex :: rx where
  "phoneRegex = Alt
     (seqs [opt (Pos ''(''), Rep digit 3 (Some 3) True, opt (Pos '')''), opt phone_sep,
            Rep digit 3 (Some 3) True, opt phone_sep, Rep digit 4 (Some 4) True])
     (seqs [opt (Pos ''+''), Rep digit 1 (Some 3) True, opt phone_sep, opt (Pos ''(''),
            Rep digit 1 (Some 4) True, opt (Pos '')''), opt phone_sep,
            Rep digit 1 (Some 4) True, opt phone_sep, Rep digit 1 (Some 9) True])"

text \<open>
  \<^verbatim>\<open>/\d+\s+[A-Za-z\s]+(?:Street|St|Avenue|Ave|Road|Rd|Drive|Dr|Lane|Ln|Boulevard|Blvd)[^,\n]*[,\s]*[A-Za-z\s]+[,\s]*[A-Z]{2}\s*\d{5}/g\<close>
\<close>

definition addressRegex :: rx where
  "addressRegex = seqs
     [plus digit,
      plus (Pos js_space),
      plus (Pos (upperAZ @ lowerAZ @ js_space)),
      alts (map lits [''Street'', ''St'', ''Avenue'', ''Ave'', ''Road'', ''Rd'', ''Drive'', ''Dr'',
                      ''Lane'', ''Ln'', ''Boulevard'', ''Blvd'']),
      star (Neg [CHR '','', CHR 0x0A]),
      star (Pos (CHR '','' # js_space)),
      plus (Pos (upperAZ @ lowerAZ @ js_space)),
      star (Pos (CHR '','' # js_space)),
      Rep (Pos upperAZ) 2 (Some 2) True,
      star (Pos js_space),
      Rep digit 5 (Some 5) True]"

text \<open>
  \<^verbatim>\<open>const xs = content.match(regex); if (xs && xs.length > 0) { businessInfo.f = xs[0]; }\<close>
\<close>

definition first_match :: "rx \<Rightarrow> string \<Rightarrow> string option" where
  "first_match r content = (case match_all False r content of [] \<Rightarrow> None | x # _ \<Rightarrow> Some x)"

definition extractBusinessInfo :: "string \<Rightarrow> business_info" where
  "extractBusinessInfo content =
     \<lparr>email = first_match emailRegex content,
      phone = first_match phoneRegex content,
      address = first_match addressRegex content\<rparr>"

subsection \<open>extractTitleFromContent, extractDescriptionFromContent\<close>

definition extractTitleFromContent :: "string \<Rightarrow> string" where
  "extractTitleFromContent content =
     (case filter (\<lambda>line. trim line \<noteq> []) (split_on (CHR 0x0A) content) of
        [] \<Rightarrow> ''Website Title''
      | line # _ \<Rightarrow> substring0 (trim line) 100)"

definition extractDescriptionFromContent :: "string \<Rightarrow> string" where
  "extractDescriptionFromContent content =
     (case filter (\<lambda>s. length (trim s) > 20) (split_on (CHR ''.'') content) of
        [] \<Rightarrow> []
      | s # _ \<Rightarrow> substring0 (trim s) 200 @ ''.'')"

subsection \<open>extractLinks\<close>

text \<open>\<^verbatim>\<open>/href=[\"']([^\"']+)[\"']/\<close>, used with the flags \<^verbatim>\<open>gi\<close> and then with none.\<close>

definition hrefRegex :: rx where
  "hrefRegex = seqs [lits ''href='', one quote, Grp (plus nonquote), one quote]"

text \<open>The callback of \<^verbatim>\<open>linkMatches.map\<close>.\<close>

definition link_of_match :: "url_parser \<Rightarrow> string \<Rightarrow> string \<Rightarrow> string result" where
  "link_of_match parseURL baseUrl link =
     (let href = replace_first_group False hrefRegex link
      in if startsWith href ''/''
         then (case parseURL baseUrl of
                 None \<Rightarrow> Inl (JSError ''Invalid URL'')
               | Some u \<Rightarrow> Inr (origin u @ href))
         else Inr href)"

definition extractLinks :: "url_parser \<Rightarrow> string \<Rightarrow> string \<Rightarrow> string list result" where
  "extractLinks parseURL html baseUrl =
     try_catch
       (and_then (map_try (link_of_match parseURL baseUrl) (match_all True hrefRegex html))
          (\<lambda>links. Inr (take 15 (filter_first_index (\<lambda>link. link)
                                 (filter (\<lambda>link. startsWith link ''http'') links)))))
       (\<lambda>error. Inr [])"

subsection \<open>extractImages\<close>

text \<open>An entry \<^verbatim>\<open>{ url, alt }\<close>.\<close>

record image =
  img_url :: string
  img_alt :: string

text \<open>\<^verbatim>\<open>/<img[^>]+>/gi\<close>, \<^verbatim>\<open>/src=[\"']([^\"']+)[\"']/i\<close>, \<^verbatim>\<open>/alt=[\"']([^\"']+)[\"']/i\<close>\<close>

definition imgRegex :: rx where
  "imgRegex = seqs [lits ''<img'', plus (Neg ''>''), lit CHR ''>'']"

definition srcRegex :: rx where
  "srcRegex = seqs [lits ''src='', one quote, Grp (plus nonquote), one quote]"

definition altRegex :: rx where
  "altRegex = seqs [lits ''alt='', one quote, Grp (plus nonquote), one quote]"

text \<open>\<^verbatim>\<open>m[1]\<close> of a match; reading on from an undefined group throws a TypeError.\<close>

definition group1 :: "rmatch \<Rightarrow> string result" where
  "group1 m = (case m_group m of
                 None \<Rightarrow> Inl (JSError ''Cannot read properties of undefined'')
               | Some g \<Rightarrow> Inr g)"

definition alt_of_tag :: "string \<Rightarrow> string result" where
  "alt_of_tag imgTag =
     (case match_first True altRegex imgTag of
        None \<Rightarrow> Inr []
      | Some altMatch \<Rightarrow> group1 altMatch)"

text \<open>
  The callback of \<^verbatim>\<open>imgMatches.map\<close>: \<open>Inr None\<close> is \<^verbatim>\<open>return null\<close>. The inner
  \<^verbatim>\<open>try\<close> covers only the parse of \<open>baseUrl\<close> for a path that is neither root-relative nor
  starts with \<^verbatim>\<open>http\<close>.
\<close>

definition image_of_tag :: "url_parser \<Rightarrow> string \<Rightarrow> string \<Rightarrow> image option result" where
  "image_of_tag parseURL baseUrl imgTag =
     (case match_first True srcRegex imgTag of
        None \<Rightarrow> Inr None
      | Some srcMatch \<Rightarrow>
          (case group1 srcMatch of
             Inl e \<Rightarrow> Inl e
           | Inr src \<Rightarrow>
               (let resolved =
                      (if startsWith src ''/''
                       then (case parseURL baseUrl of
                               None \<Rightarrow> Inl (JSError ''Invalid URL'')
                             | Some u \<Rightarrow> Inr (Some (origin u @ src)))
                       else if \<not> startsWith src ''http''
                       then (case parseURL baseUrl of
                               None \<Rightarrow> Inr None
                             | Some urlObj \<Rightarrow>
                                 Inr (Some (origin urlObj
                                            @ (if endsWith (pathname urlObj) ''/''
                                               then pathname urlObj
                                               else pathname urlObj @ ''/'')
                                            @ src)))
                       else Inr (Some src))
                in case resolved of
                     Inl e \<Rightarrow> Inl e
                   | Inr None \<Rightarrow> Inr None
                   | Inr (Some imgUrl) \<Rightarrow>
                       (case alt_of_tag imgTag of
                          Inl e \<Rightarrow> Inl e
                        | Inr a \<Rightarrow> Inr (Some \<lparr>img_url = imgUrl, img_alt = a\<rparr>)))))"

text \<open>\<^verbatim>\<open>.filter(img => img && img.url.startsWith('http'))\<close>\<close>

definition kept_images :: "image option list \<Rightarrow> image list" where
  "kept_images imgs =
     List.map_filter (\<lambda>img. case img of
                               None \<Rightarrow> None
                             | Some i \<Rightarrow> if startsWith (img_url i) ''http'' then Some i else None) imgs"

definition extractImages :: "url_parser \<Rightarrow> string \<Rightarrow> string \<Rightarrow> image list result" where
  "extractImages parseURL html baseUrl =
     try_catch
       (and_then (map_try (image_of_tag parseURL baseUrl) (match_all True imgRegex html))
          (\<lambda>imgs. Inr (take 100 (filter_first_index img_url (kept_images imgs)))))
       (\<lambda>error. Inr [])"

section \<open>JSON values and objects\<close>

text \<open>
  A JSON value; an object is the list of its properties in insertion order. A property
  that is absent reads as \<^verbatim>\<open>undefined\<close>: \<open>None\<close>.
\<close>

datatype jv =
    JNull
  | JBool bool
  | JNum int
  | JStr string
  | JArr "jv list"
  | JObj "(string \<times> jv) list"

type_synonym obj = "(string \<times> jv) list"

definition obj_get :: "obj \<Rightarrow> string \<Rightarrow> jv option" where
  "obj_get ob k = map_of ob k"

text \<open>\<^verbatim>\<open>ob[k] = v\<close>: an existing property keeps its place, a new one goes last.\<close>

fun obj_set :: "string \<Rightarrow> jv \<Rightarrow> obj \<Rightarrow> obj" where
  "obj_set k v [] = [(k, v)]"
| "obj_set k v ((k', v') # ps) = (if k' = k then (k, v) # ps else (k', v') # obj_set k v ps)"

text \<open>\<^verbatim>\<open>{ ...base, ...more }\<close> and \<^verbatim>\<open>Object.assign(base, more)\<close>.\<close>

definition obj_spread :: "obj \<Rightarrow> obj \<Rightarrow> obj" where
  "obj_spread base others = foldl (\<lambda>acc (k, v). obj_set k v acc) base others"

fun obj_delete :: "string \<Rightarrow> obj \<Rightarrow> obj" where
  "obj_delete k [] = []"
| "obj_delete k ((k', v') # ps) = (if k' = k then obj_delete k ps else (k', v') # obj_delete k ps)"


text \<open>A property read where the provider documents a string.\<close>

definition str_prop :: "obj \<Rightarrow> string \<Rightarrow> string option" where
  "str_prop ob k = (case obj_get ob k of Some (JStr s) \<Rightarrow> Some s | _ \<Rightarrow> None)"

definition jv_of_str :: "string option \<Rightarrow> jv" where
  "jv_of_str v = (case v of None \<Rightarrow> JNull | Some s \<Rightarrow> JStr s)"

section \<open>Scrape Orchestrator\<close>

subsection \<open>Page selection\<close>

text \<open>
  An element of \<^verbatim>\<open>mapResult.links\<close> is a string or an object whose \<^verbatim>\<open>url\<close> may be missing.
\<close>

datatype link = LStr string | LObj "string option"

text \<open>\<^verbatim>\<open>typeof link === 'string' ? link : link.url\<close>\<close>

fun link_url :: "link \<Rightarrow> string option" where
  "link_url (LStr s) = Some s"
| "link_url (LObj u) = u"

definition priorityKeywords :: "string list" where
  "priorityKeywords = [''about'', ''service'', ''contact'', ''product'', ''team'',
                       ''portfolio'', ''pricing'', ''features'']"

text \<open>\<^verbatim>\<open>(typeof link === 'string' ? link : link.url || '').toLowerCase()\<close>\<close>

fun link_lower :: "link \<Rightarrow> string" where
  "link_lower (LStr s) = toLowerCase s"
| "link_lower (LObj u) = toLowerCase (or_else u [])"

definition is_priority :: "link \<Rightarrow> bool" where
  "is_priority l = list_ex (\<lambda>keyword. includes_str (link_lower l) keyword) priorityKeywords"

definition priorityPages :: "link list \<Rightarrow> link list" where
  "priorityPages allDiscoveredUrls = filter is_priority allDiscoveredUrls"

definition priorityUrls :: "string \<Rightarrow> link list \<Rightarrow> string option list" where
  "priorityUrls url allDiscoveredUrls =
     [Some url]
     @ map link_url (take 12 (priorityPages allDiscoveredUrls))
     @ map link_url (take 8 allDiscoveredUrls)"

definition urlsToScrape :: "string \<Rightarrow> link list \<Rightarrow> string option list" where
  "urlsToScrape url allDiscoveredUrls = take 8 (new_Set (priorityUrls url allDiscoveredUrls))"

subsection \<open>The scraping provider and the network\<close>

text \<open>
  The scraping provider (\<^verbatim>\<open>firecrawl.map\<close>, \<^verbatim>\<open>firecrawl.scrape\<close>), the direct fetch
  (\<^verbatim>\<open>fetch\<close> and \<^verbatim>\<open>response.text()\<close>), the URL parser and the clock are outside the
  repository: they are the fields of an environment. Each call returns a value or throws.
  A page scrape is told the strategy that asks and the index of the request within it, so
  the provider may answer every request differently. The title and description of a
  page's metadata are strings when present; its other properties are any JSON.
\<close>

datatype scrape_mode = SitemapPage | SinglePage

record map_result =
  mr_links :: "link list option"

record page_result =
  pr_markdown :: "string option"
  pr_html :: "string option"
  pr_metadata :: "obj option"

record env =
  parseURL :: url_parser
  fc_map :: "string \<Rightarrow> map_result option result"
  fc_scrape :: "scrape_mode \<Rightarrow> nat \<Rightarrow> string option \<Rightarrow> page_result option result"
  fetch_text :: "string \<Rightarrow> string result"
  now :: string

text \<open>What one call of the orchestrator does to the outside, in order.\<close>

datatype event =
    EvMap string
  | EvScrape scrape_mode "string option"
  | EvSleep nat
  | EvFetch string

text \<open>An entry of \<^verbatim>\<open>scrapedPages\<close>; \<^verbatim>\<open>content\<close> repeats \<^verbatim>\<open>markdown\<close>.\<close>

record scraped_page =
  pg_url :: "string option"
  pg_markdown :: string
  pg_html :: "string option"
  pg_metadata :: "obj option"

record scraped_site =
  title :: string
  description :: string
  content :: string
  fullContent :: "string option"
  links :: "string list"
  images :: "image list"
  businessInfo :: business_info
  sitemap :: "string option list option"
  metadata :: obj

text \<open>\<^verbatim>\<open>!!(businessInfo.email || businessInfo.phone)\<close>\<close>

definition hasContactInfo :: "business_info \<Rightarrow> bool" where
  "hasContactInfo info = (truthy (email info) \<or> truthy (phone info))"

text \<open>\<^verbatim>\<open>text.split(' ').length\<close>\<close>

definition wordCount :: "string \<Rightarrow> int" where
  "wordCount text = int (length (split_on (CHR '' '') text))"

subsection \<open>enhancedScrapeWebsite\<close>

text \<open>\<^verbatim>\<open>/<title[^>]*>([^<]+)<\/title>/i\<close>\<close>

definition titleRegex :: rx where
  "titleRegex = seqs [lits ''<title'', star (Neg ''>''), lit CHR ''>'', Grp (plus (Neg ''<'')),
                      lits ''</title>'']"

text \<open>
  \<^verbatim>\<open>/<meta[^>]*name=[\"']description[\"'][^>]*content=[\"']([^\"']+)[\"']/i\<close> and the same
  with \<^verbatim>\<open>property=[\"']og:description[\"']\<close>.
\<close>

definition metaRegex :: "string \<Rightarrow> string \<Rightarrow> rx" where
  "metaRegex attr val = seqs [lits ''<meta'', star (Neg ''>''), lits attr, lit CHR ''='', one quote,
                              lits val, one quote, star (Neg ''>''), lits ''content='', one quote,
                              Grp (plus nonquote), one quote]"

text \<open>\<^verbatim>\<open>/<tag[^>]*>[\s\S]*?<\/tag>/gi\<close>\<close>

definition blockRegex :: "string \<Rightarrow> rx" where
  "blockRegex tag = seqs [lit CHR ''<'', lits tag, star (Neg ''>''), lit CHR ''>'', star_lazy anychar,
                          lits ''</'', lits tag, lit CHR ''>'']"

text \<open>\<^verbatim>\<open>/<[^>]+>/g\<close> and \<^verbatim>\<open>/\s+/g\<close>\<close>

definition tagRegex :: rx where
  "tagRegex = seqs [lit CHR ''<'', plus (Neg ''>''), lit CHR ''>'']"

definition spacesRegex :: rx where
  "spacesRegex = plus (Pos js_space)"

definition textContent_of :: "string \<Rightarrow> string" where
  "textContent_of html =
     trim (replace_all False spacesRegex '' ''
          (replace_all False tagRegex '' ''
          (replace_all True (blockRegex ''header'') []
          (replace_all True (blockRegex ''footer'') []
          (replace_all True (blockRegex ''nav'') []
          (replace_all True (blockRegex ''style'') []
          (replace_all True (blockRegex ''script'') [] html)))))))"

text \<open>\<^verbatim>\<open>a || b\<close> on two match results.\<close>

definition first_of :: "'a option \<Rightarrow> 'a option \<Rightarrow> 'a option" where
  "first_of a b = (case a of Some x \<Rightarrow> Some x | None \<Rightarrow> b)"

text \<open>The value returned by the \<^verbatim>\<open>catch\<close> block: the terminal degraded result.\<close>

definition fallback_site :: "env \<Rightarrow> string \<Rightarrow> js_error \<Rightarrow> scraped_site" where
  "fallback_site e url error =
     \<lparr>title = ''Website Title'',
      description = ''Website description not available'',
      content = ''Could not extract content from this website. Please check the URL and try again.'',
      fullContent = None,
      links = [],
      images = [],
      businessInfo = \<lparr>email = None, phone = None, address = None\<rparr>,
      sitemap = None,
      metadata = [(''scrapedAt'', JStr (now e)),
                  (''url'', JStr url),
                  (''method'', JStr ''fallback''),
                  (''error'', JStr (message error))]\<rparr>"

definition enhanced_site :: "env \<Rightarrow> string \<Rightarrow> string \<Rightarrow> scraped_site result" where
  "enhanced_site e url html =
     (let titleMatch = match_first True titleRegex html;
          descMatch = first_of (match_first True (metaRegex ''name'' ''description'') html)
                               (match_first True (metaRegex ''property'' ''og:description'') html);
          textContent = textContent_of html;
          info = extractBusinessInfo textContent
      in and_then (extractLinks (parseURL e) html url) (\<lambda>ls.
         and_then (extractImages (parseURL e) html url) (\<lambda>imgs.
         and_then (case titleMatch of
                     None \<Rightarrow> Inr ''Website Title''
                   | Some m \<Rightarrow> and_then (group1 m) (\<lambda>g. Inr (trim g))) (\<lambda>t.
         and_then (case descMatch of
                     None \<Rightarrow> Inr (extractDescriptionFromContent textContent)
                   | Some m \<Rightarrow> and_then (group1 m) (\<lambda>g. Inr (trim g))) (\<lambda>d.
         Inr \<lparr>title = t,
              description = d,
              content = substring0 textContent 8000,
              fullContent = Some textContent,
              links = ls,
              images = imgs,
              businessInfo = info,
              sitemap = None,
              metadata = [(''scrapedAt'', JStr (now e)),
                          (''url'', JStr url),
                          (''method'', JStr ''enhanced''),
                          (''wordCount'', JNum (wordCount textContent)),
                          (''imageCount'', JNum (int (length imgs))),
                          (''hasContactInfo'', JBool (hasContactInfo info))]\<rparr>)))))"

definition enhancedScrapeWebsite :: "env \<Rightarrow> string \<Rightarrow> scraped_site result \<times> event list" where
  "enhancedScrapeWebsite e url =
     (try_catch (and_then (fetch_text e url) (enhanced_site e url))
                (\<lambda>error. Inr (fallback_site e url error)),
      [EvFetch url])"

subsection \<open>scrapeSinglePage\<close>

text \<open>The \<^verbatim>\<open>try\<close> block of \<^verbatim>\<open>scrapeSinglePage\<close> once the provider has answered.\<close>

definition single_site :: "env \<Rightarrow> string \<Rightarrow> page_result option \<Rightarrow> scraped_site result" where
  "single_site e url scrapeResult =
     (case scrapeResult of
        None \<Rightarrow> Inl (JSError ''Failed to scrape website - no content returned'')
      | Some r \<Rightarrow>
          if \<not> truthy (pr_markdown r)
          then Inl (JSError ''Failed to scrape website - no content returned'')
          else
            (let body = or_else (pr_markdown r) [];
                 meta = (case pr_metadata r of None \<Rightarrow> [] | Some m \<Rightarrow> m);
                 t = or_else (str_prop meta ''title'') (extractTitleFromContent body);
                 d = or_else (str_prop meta ''description'') (extractDescriptionFromContent body);
                 info = extractBusinessInfo body
             in and_then (extractLinks (parseURL e) (or_else (pr_html r) []) url) (\<lambda>ls.
                and_then (extractImages (parseURL e) (or_else (pr_html r) []) url) (\<lambda>imgs.
                Inr \<lparr>title = (if t \<noteq> [] then t else ''Website Title''),
                     description = d,
                     content = substring0 body 10000,
                     fullContent = Some body,
                     links = ls,
                     images = imgs,
                     businessInfo = info,
                     sitemap = None,
                     metadata = obj_spread
                        [(''scrapedAt'', JStr (now e)),
                         (''url'', JStr url),
                         (''method'', JStr ''firecrawl-single''),
                         (''wordCount'', JNum (wordCount body)),
                         (''imageCount'', JNum (int (length imgs))),
                         (''hasContactInfo'', JBool (hasContactInfo info))]
                        meta\<rparr>))))"

definition scrapeSinglePage :: "env \<Rightarrow> string \<Rightarrow> scraped_site result \<times> event list" where
  "scrapeSinglePage e url =
     (case and_then (fc_scrape e SinglePage 0 (Some url)) (single_site e url) of
        Inr site \<Rightarrow> (Inr site, [EvScrape SinglePage (Some url)])
      | Inl error \<Rightarrow>
          (case enhancedScrapeWebsite e url of
             (res, evs) \<Rightarrow> (res, EvScrape SinglePage (Some url) # evs)))"

subsection \<open>professionalScrapeWebsite\<close>

text \<open>
  The loop over \<^verbatim>\<open>urlsToScrape\<close>: \<open>n\<close> is \<^verbatim>\<open>urlsToScrape.length\<close> and \<open>i\<close> the index.
  The \<^verbatim>\<open>catch\<close> of the loop body takes every exception of the request.
\<close>

fun scrape_pages :: "env \<Rightarrow> nat \<Rightarrow> nat \<Rightarrow> string option list
                      \<Rightarrow> scraped_page list \<times> event list" where
  "scrape_pages e n i [] = ([], [])"
| "scrape_pages e n i (pageUrl # others) =
     (let (got, evs) =
            (case fc_scrape e SitemapPage i pageUrl of
               Inr pageResult \<Rightarrow>
                 ((case pageResult of
                     None \<Rightarrow> []
                   | Some r \<Rightarrow>
                       if truthy (pr_markdown r)
                       then [\<lparr>pg_url = pageUrl, pg_markdown = or_else (pr_markdown r) [],
                              pg_html = pr_html r, pg_metadata = pr_metadata r\<rparr>]
                       else []),
                  EvScrape SitemapPage pageUrl # (if i + 1 < n then [EvSleep 6000] else []))
             | Inl pageError \<Rightarrow>
                 ([],
                  EvScrape SitemapPage pageUrl #
                    (if includes_str (message pageError) ''Rate limit''
                     then [EvSleep 60000] else [])));
          (pages, evs') = scrape_pages e n (i + 1) others
      in (got @ pages, evs @ evs'))"

text \<open>The accumulators of the aggregation loop.\<close>

record agg =
  combinedContent :: string
  mainTitle :: string
  mainDescription :: string
  allBusinessInfo :: business_info
  allLinks :: "string list"
  allImages :: "image list"

text \<open>\<^verbatim>\<open>Object.assign(allBusinessInfo, pageBusinessInfo)\<close>\<close>

definition assign_info :: "business_info \<Rightarrow> business_info \<Rightarrow> business_info" where
  "assign_info target src =
     \<lparr>email = first_of (email src) (email target),
      phone = first_of (phone src) (phone target),
      address = first_of (address src) (address target)\<rparr>"

definition agg_page :: "env \<Rightarrow> string \<Rightarrow> agg \<Rightarrow> scraped_page \<Rightarrow> agg result" where
  "agg_page e url a page =
     (let pageContent = pg_markdown page;
          meta = (case pg_metadata page of None \<Rightarrow> [] | Some m \<Rightarrow> m);
          pageTitle = or_else (str_prop meta ''title'') [];
          pageDescription = or_else (str_prop meta ''description'') [];
          primary = (pg_url page = Some url \<or> mainTitle a = []);
          a1 = a\<lparr>mainTitle := (if primary
                                 then (if pageTitle \<noteq> [] then pageTitle
                                       else extractTitleFromContent pageContent)
                                 else mainTitle a),
                  mainDescription := (if primary
                                       then (if pageDescription \<noteq> [] then pageDescription
                                             else extractDescriptionFromContent pageContent)
                                       else mainDescription a),
                  combinedContent := combinedContent a
                     @ [CHR 0x0A, CHR 0x0A] @ ''=== PAGE: '' @ tpl (pg_url page) @ '' ==='' @ [CHR 0x0A]
                     @ ''TITLE: '' @ pageTitle @ [CHR 0x0A]
                     @ ''DESCRIPTION: '' @ pageDescription @ [CHR 0x0A]
                     @ ''CONTENT: '' @ pageContent @ [CHR 0x0A],
                  allBusinessInfo := assign_info (allBusinessInfo a) (extractBusinessInfo pageContent)\<rparr>
      in if truthy (pg_html page)
         then and_then (extractLinks (parseURL e) (or_else (pg_html page) []) (tpl (pg_url page)))
                (\<lambda>pageLinks.
              and_then (extractImages (parseURL e) (or_else (pg_html page) []) (tpl (pg_url page)))
                (\<lambda>pageImages.
              Inr (a1\<lparr>allLinks := allLinks a1 @ pageLinks,
                      allImages := allImages a1 @ pageImages\<rparr>)))
         else Inr a1)"

fun agg_pages :: "env \<Rightarrow> string \<Rightarrow> agg \<Rightarrow> scraped_page list \<Rightarrow> agg result" where
  "agg_pages e url a [] = Inr a"
| "agg_pages e url a (page # others) =
     and_then (agg_page e url a page) (\<lambda>a'. agg_pages e url a' others)"

definition agg_init :: agg where
  "agg_init = \<lparr>combinedContent = [], mainTitle = [], mainDescription = [],
               allBusinessInfo = \<lparr>email = None, phone = None, address = None\<rparr>,
               allLinks = [], allImages = []\<rparr>"

definition finalData :: "env \<Rightarrow> string \<Rightarrow> link list \<Rightarrow> scraped_page list \<Rightarrow> agg \<Rightarrow> scraped_site" where
  "finalData e url allDiscoveredUrls scrapedPages a =
     (let ls = new_Set (allLinks a);
          imgs = filter_first_index img_url (allImages a)
      in \<lparr>title = (if mainTitle a \<noteq> [] then mainTitle a else ''Website Title''),
          description = mainDescription a,
          content = substring0 (combinedContent a) 50000,
          fullContent = Some (combinedContent a),
          links = ls,
          images = imgs,
          businessInfo = allBusinessInfo a,
          sitemap = Some (map link_url allDiscoveredUrls),
          metadata = [(''scrapedAt'', JStr (now e)),
                      (''url'', JStr url),
                      (''method'', JStr ''firecrawl-sitemap-comprehensive''),
                      (''totalPagesDiscovered'', JNum (int (length allDiscoveredUrls))),
                      (''pagesScraped'', JNum (int (length scrapedPages))),
                      (''priorityPagesFound'', JNum (int (length (priorityPages allDiscoveredUrls)))),
                      (''wordCount'', JNum (wordCount (combinedContent a))),
                      (''imageCount'', JNum (int (length imgs))),
                      (''hasContactInfo'', JBool (hasContactInfo (allBusinessInfo a))),
                      (''scrapedUrls'', JArr (map (\<lambda>p. jv_of_str (pg_url p)) scrapedPages)),
                      (''sitemapComplete'', JBool True)]\<rparr>)"

text \<open>
  \<^verbatim>\<open>!mapResult || !mapResult.links || mapResult.links.length === 0\<close>: the links when the
  mapping found some.
\<close>

definition discovered :: "map_result option \<Rightarrow> link list" where
  "discovered mapResult =
     (case mapResult of
        None \<Rightarrow> []
      | Some r \<Rightarrow> (case mr_links r of None \<Rightarrow> [] | Some ls \<Rightarrow> ls))"

text \<open>
  The result and the events of the sitemap strategy after the mapping call. An exception
  anywhere in the outer \<^verbatim>\<open>try\<close> goes to its \<^verbatim>\<open>catch\<close>, which scrapes the single page.
\<close>

definition professionalScrapeWebsite :: "env \<Rightarrow> string \<Rightarrow> scraped_site result \<times> event list" where
  "professionalScrapeWebsite e url =
     (case fc_map e url of
        Inl error \<Rightarrow>
          (case scrapeSinglePage e url of (res, evs) \<Rightarrow> (res, EvMap url # evs))
      | Inr mapResult \<Rightarrow>
          if discovered mapResult = []
          then (case scrapeSinglePage e url of (res, evs) \<Rightarrow> (res, EvMap url # evs))
          else
            (let allDiscoveredUrls = discovered mapResult;
                 urls = urlsToScrape url allDiscoveredUrls;
                 (scrapedPages, evs) = scrape_pages e (length urls) 0 urls
             in if scrapedPages = []
                then (case enhancedScrapeWebsite e url of
                        (Inr site, evs') \<Rightarrow> (Inr site, EvMap url # evs @ evs')
                      | (Inl error, evs') \<Rightarrow>
                          (case scrapeSinglePage e url of
                             (res, evs'') \<Rightarrow> (res, EvMap url # evs @ evs' @ evs'')))
                else
                  (case agg_pages e url agg_init scrapedPages of
                     Inr a \<Rightarrow>
                       (Inr (finalData e url allDiscoveredUrls scrapedPages a), EvMap url # evs)
                   | Inl error \<Rightarrow>
                       (case scrapeSinglePage e url of
                          (res, evs') \<Rightarrow> (res, EvMap url # evs @ evs')))))"

text \<open>
  The choice of the request handler:
  \<^verbatim>\<open>firecrawl ? await professionalScrapeWebsite(url) : await enhancedScrapeWebsite(url)\<close>.
\<close>

definition scrape :: "bool \<Rightarrow> env \<Rightarrow> string \<Rightarrow> scraped_site result \<times> event list" where
  "scrape firecrawl e url =
     (if firecrawl then professionalScrapeWebsite e url else enhancedScrapeWebsite e url)"

subsection \<open>Observations on a run\<close>

text \<open>The pages the sitemap strategy asked the provider for, in order.\<close>

definition sitemap_requests :: "event list \<Rightarrow> string option list" where
  "sitemap_requests evs =
     List.map_filter (\<lambda>ev. case ev of EvScrape SitemapPage u \<Rightarrow> Some u | _ \<Rightarrow> None) evs"

text \<open>
  A page request fails when it throws or comes back without markdown: the negation of
  \<^verbatim>\<open>pageResult && pageResult.markdown\<close> on a request that returned.
\<close>

definition page_failed :: "page_result option result \<Rightarrow> bool" where
  "page_failed res =
     (case res of
        Inl error \<Rightarrow> True
      | Inr None \<Rightarrow> True
      | Inr (Some r) \<Rightarrow> \<not> truthy (pr_markdown r))"

text \<open>
  What a result says about contact data: the \<^verbatim>\<open>hasContactInfo\<close> property of its metadata
  (\<open>None\<close> when the metadata has no such property), its \<^verbatim>\<open>method\<close>, and whether its
  business info holds an email or a phone.
\<close>

definition contact_flag :: "scraped_site \<Rightarrow> jv option" where
  "contact_flag site = obj_get (metadata site) ''hasContactInfo''"

definition method_of :: "scraped_site \<Rightarrow> jv option" where
  "method_of site = obj_get (metadata site) ''method''"

definition has_contact :: "scraped_site \<Rightarrow> bool" where
  "has_contact site = (email (businessInfo site) \<noteq> None \<or> phone (businessInfo site) \<noteq> None)"

text \<open>
  The metadata the provider returns for the single page carries no property named
  \<^verbatim>\<open>hasContactInfo\<close> (the spread \<^verbatim>\<open>...scrapeResult.metadata\<close> would put it over the
  computed one).
\<close>

definition plain_page_metadata :: "env \<Rightarrow> string \<Rightarrow> bool" where
  "plain_page_metadata e url =
     (case fc_scrape e SinglePage 0 (Some url) of
        Inr (Some r) \<Rightarrow>
          (case pr_metadata r of None \<Rightarrow> True | Some m \<Rightarrow> obj_get m ''hasContactInfo'' = None)
      | _ \<Rightarrow> True)"

section \<open>LLM Gateway\<close>

text \<open>
  The process-wide configuration \<^verbatim>\<open>apiConfig\<close>. A token budget is a JavaScript number; it
  is modelled as a rational, so that \<^verbatim>\<open>maxOutreachTokens / 3\<close> is the exact quotient
  (JavaScript rounds it to the nearest double, which is the same number when the budget is
  a multiple of 3, as the initial 3000 is).
\<close>

record api_config =
  llmProvider :: string
  geminiApiKey :: "string option"
  openaiApiKey :: "string option"
  claudeApiKey :: "string option"
  firecrawlApiKey :: "string option"
  geminiModel :: string
  openaiModel :: string
  claudeModel :: string
  maxWebsiteTokens :: rat
  maxOutreachTokens :: rat

text \<open>The initial value of \<^verbatim>\<open>apiConfig\<close>, given the variables of the process environment.\<close>

definition initial_apiConfig :: "string option \<Rightarrow> string option \<Rightarrow> string option \<Rightarrow> string option
                                 \<Rightarrow> api_config" where
  "initial_apiConfig google_key openai_key anthropic_key firecrawl_key =
     \<lparr>llmProvider = ''default'',
      geminiApiKey = google_key,
      openaiApiKey = openai_key,
      claudeApiKey = anthropic_key,
      firecrawlApiKey = firecrawl_key,
      geminiModel = ''gemini-2.5-flash'',
      openaiModel = ''gpt-5'',
      claudeModel = ''claude-sonnet-4-5-20250929'',
      maxWebsiteTokens = 8000,
      maxOutreachTokens = 3000\<rparr>"

text \<open>
  One request to a provider's SDK, and the outside of the gateway: the variable
  \<^verbatim>\<open>GOOGLE_API_KEY\<close> of the process environment and the providers, which answer a request
  with a text, with nothing (\<^verbatim>\<open>null\<close> or \<^verbatim>\<open>undefined\<close> where the SDK's reply has no text)
  or by throwing.
\<close>

record llm_request =
  rq_sdk :: string
  rq_apiKey :: string
  rq_model :: string
  rq_maxTokens :: rat
  rq_prompt :: string

record llm_env =
  GOOGLE_API_KEY :: "string option"
  provider_reply :: "llm_request \<Rightarrow> string option result"

record llm_options =
  o_maxTokens :: "rat option"
  o_model :: "string option"

text \<open>\<^verbatim>\<open>options.maxTokens || 8000\<close>\<close>

definition effective_maxTokens :: "rat option \<Rightarrow> rat" where
  "effective_maxTokens t = (case t of None \<Rightarrow> 8000 | Some n \<Rightarrow> if n = 0 then 8000 else n)"

text \<open>
  \<open>callLLM\<close> returns the provider's reply together with the requests it sent: one, or none
  when the configuration is rejected before any network call.
\<close>

definition send_request :: "llm_env \<Rightarrow> llm_request \<Rightarrow> string option result \<times> llm_request list" where
  "send_request le rq = (provider_reply le rq, [rq])"

definition callLLM :: "api_config \<Rightarrow> llm_env \<Rightarrow> string \<Rightarrow> llm_options
                       \<Rightarrow> string option result \<times> llm_request list" where
  "callLLM cfg le prompt options =
     (let provider = llmProvider cfg;
          maxTokens = effective_maxTokens (o_maxTokens options)
      in if provider = ''default'' \<or> provider = ''gemini''
         then (let apiKey = (if provider = ''default'' then GOOGLE_API_KEY le
                             else first_of (if truthy (geminiApiKey cfg) then geminiApiKey cfg else None)
                                           (GOOGLE_API_KEY le))
               in if \<not> truthy apiKey
                  then (Inl (JSError ''Gemini API key not configured''), [])
                  else send_request le
                         \<lparr>rq_sdk = ''gemini'', rq_apiKey = or_else apiKey [],
                          rq_model = or_else (o_model options) (geminiModel cfg),
                          rq_maxTokens = maxTokens, rq_prompt = prompt\<rparr>)
         else if provider = ''openai''
         then (if \<not> truthy (openaiApiKey cfg)
               then (Inl (JSError ''OpenAI API key not configured''), [])
               else send_request le
                      \<lparr>rq_sdk = ''openai'', rq_apiKey = or_else (openaiApiKey cfg) [],
                       rq_model = or_else (o_model options) ''gpt-4o'',
                       rq_maxTokens = maxTokens, rq_prompt = prompt\<rparr>)
         else if provider = ''claude''
         then (if \<not> truthy (claudeApiKey cfg)
               then (Inl (JSError ''Claude API key not configured''), [])
               else send_request le
                      \<lparr>rq_sdk = ''claude'', rq_apiKey = or_else (claudeApiKey cfg) [],
                       rq_model = or_else (o_model options) ''claude-sonnet-4-5-20250929'',
                       rq_maxTokens = maxTokens, rq_prompt = prompt\<rparr>)
         else (Inl (JSError (''Unknown LLM provider: '' @ provider)), []))"


section \<open>Generation Pipeline\<close>

text \<open>
  The business facts and the scraped data as a request carries them; the fields the
  pipeline reads are strings when present.
\<close>

record business_facts =
  bf_name :: "string option"
  bf_industry :: "string option"
  bf_services :: "string option"
  bf_issues :: "string option"
  bf_description :: "string option"

record scraped_input =
  si_fullContent :: "string option"
  si_content :: "string option"
  si_images :: "image list option"

record generated_site =
  g_html :: string
  g_title :: string
  g_description :: string
  g_generatedAt :: string
  g_error :: "string option"

definition nl :: string where
  "nl = [CHR 0x0A]"

subsection \<open>generateFallbackWebsite\<close>

definition generateFallbackWebsite :: "business_facts \<Rightarrow> string" where
  "generateFallbackWebsite bi =
     concat
      [''<!DOCTYPE html>'', nl,
       ''<html lang=\"en\">'', nl,
       ''<head>'', nl,
       ''    <meta charset=\"UTF-8\">'', nl,
       ''    <meta name=\"viewport\" content=\"width=device-width, initial-scale=1.0\">'', nl,
       ''    <title>'', tpl (bf_name bi), ''</title>'', nl,
       ''    <script src=\"https://cdn.tailwindcss.com\"></script>'', nl,
       ''</head>'', nl,
       ''<body class=\"bg-gray-50\">'', nl,
       ''    <header class=\"bg-blue-600 text-white\">'', nl,
       ''        <div class=\"container mx-auto px-6 py-4\">'', nl,
       ''            <h1 class=\"text-3xl font-bold\">'', tpl (bf_name bi), ''</h1>'', nl,
       ''        </div>'', nl,
       ''    </header>'', nl,
       nl,
       ''    <main class=\"container mx-auto px-6 py-12\">'', nl,
       ''        <section class=\"text-center mb-12\">'', nl,
       ''            <h2 class=\"text-4xl font-bold text-gray-800 mb-4\">Welcome to '', tpl (bf_name bi), ''</h2>'', nl,
       ''            <p class=\"text-xl text-gray-600\">'', or_else (bf_services bi) ''Professional services you can trust'', ''</p>'', nl,
       ''        </section>'', nl,
       nl,
       ''        <section class=\"grid md:grid-cols-3 gap-8 mb-12\">'', nl,
       ''            <div class=\"bg-white p-6 rounded-lg shadow-md\">'', nl,
       ''                <h3 class=\"text-xl font-bold mb-4\">Our Services</h3>'', nl,
       ''                <p class=\"text-gray-600\">'', or_else (bf_services bi) ''Quality services tailored to your needs.'', ''</p>'', nl,
       ''            </div>'', nl,
       ''            <div class=\"bg-white p-6 rounded-lg shadow-md\">'', nl,
       ''                <h3 class=\"text-xl font-bold mb-4\">About Us</h3>'', nl,
       ''                <p class=\"text-gray-600\">Experienced professionals in '', or_else (bf_industry bi) ''our field'', ''.</p>'', nl,
       ''            </div>'', nl,
       ''            <div class=\"bg-white p-6 rounded-lg shadow-md\">'', nl,
       ''                <h3 class=\"text-xl font-bold mb-4\">Contact</h3>'', nl,
       ''                <p class=\"text-gray-600\">Get in touch for a consultation.</p>'', nl,
       ''            </div>'', nl,
       ''        </section>'', nl,
       ''    </main>'', nl,
       nl,
       ''    <footer class=\"bg-gray-800 text-white py-8\">'', nl,
       ''        <div class=\"container mx-auto px-6 text-center\">'', nl,
       ''            <p>&copy; 2025 '', tpl (bf_name bi), ''. All rights reserved.</p>'', nl,
       ''        </div>'', nl,
       ''    </footer>'', nl,
       ''</body>'', nl,
       ''</html>'']"

subsection \<open>generateWebsiteWithAI\<close>

text \<open>
  \<^verbatim>\<open>scrapedData?.fullContent?.substring(0, 500000) || scrapedData?.content?.substring(0, 500000) || 'No content'\<close>
\<close>

definition websiteContent_of :: "scraped_input option \<Rightarrow> string" where
  "websiteContent_of scrapedData =
     (let full = (case scrapedData of None \<Rightarrow> None
                  | Some d \<Rightarrow> map_option (\<lambda>s. substring0 s 500000) (si_fullContent d));
          short = (case scrapedData of None \<Rightarrow> None
                   | Some d \<Rightarrow> map_option (\<lambda>s. substring0 s 500000) (si_content d))
      in if truthy full then or_else full []
         else or_else short ''No content'')"

text \<open>\<^verbatim>\<open>scrapedData?.images || []\<close>\<close>

definition images_of :: "scraped_input option \<Rightarrow> image list" where
  "images_of scrapedData =
     (case scrapedData of None \<Rightarrow> [] | Some d \<Rightarrow> (case si_images d of None \<Rightarrow> [] | Some imgs \<Rightarrow> imgs))"

text \<open>One line of the image list: \<^verbatim>\<open>${index + 1}. ${img.url}${img.alt ? ` (alt: "${img.alt}")` : ''}\n\<close>\<close>

definition image_line :: "nat \<times> image \<Rightarrow> string" where
  "image_line p =
     (case p of (index, img) \<Rightarrow>
        nat_str (index + 1) @ ''. '' @ img_url img
        @ (if img_alt img \<noteq> [] then '' (alt: \"'' @ img_alt img @ ''\")'' else [])
        @ nl)"

definition imageSection_of :: "string \<Rightarrow> nat \<Rightarrow> image list \<Rightarrow> string" where
  "imageSection_of heading shown imgs =
     (if length imgs > 0
      then nl @ nl @ heading @ '' ('' @ nat_str (length imgs) @ '' total, showing ''
           @ nat_str (min (length imgs) shown) @ ''):'' @ nl
           @ concat (map image_line (enumerate 0 (take shown imgs)))
      else [])"

definition website_prompt :: "business_facts \<Rightarrow> string \<Rightarrow> string \<Rightarrow> string \<Rightarrow> string" where
  "website_prompt bi websiteContent imageSection instructions =
     concat
      [''Create a complete, modern HTML website for this business:'', nl,
       nl,
       ''Business: '', tpl (bf_name bi), nl,
       ''Industry: '', tpl (bf_industry bi), nl,
       ''Services: '', tpl (bf_services bi), nl,
       ''Current Website Content ('', nat_str (length websiteContent), '' characters): '', websiteContent, imageSection, nl,
       nl,
       ''Instructions: '', instructions, nl,
       nl,
       ''Create a complete HTML page with:'', nl,
       ''- Modern, professional design'', nl,
       ''- Responsive layout using Tailwind CSS'', nl,
       ''- Hero section with compelling headline'', nl,
       ''- Services/products section'', nl,
       ''- About section'', nl,
       ''- Contact section with form'', nl,
       ''- Professional color scheme'', nl,
       ''- Mobile-friendly design'', nl,
       nl,
       ''IMPORTANT INSTRUCTIONS FOR IMAGES:'', nl,
       ''- Use the actual image URLs from the \"AVAILABLE IMAGES\" list above whenever possible'', nl,
       ''- Extract and use image URLs that appear in the website content'', nl,
       ''- If original images are not available or suitable, use placeholder images from https://images.unsplash.com/'', nl,
       ''- Include proper alt text for all images for accessibility'', nl,
       ''- Ensure all image URLs are absolute (not relative paths)'', nl,
       ''- Use responsive image techniques (e.g., object-fit: cover)'', nl,
       nl,
       ''Return ONLY the complete HTML code, no explanations.'']"

text \<open>
  \<^verbatim>\<open>html.replace(/```html/g, '').replace(/```/g, '').trim()\<close>; on a reply without text the
  method call throws a TypeError.
\<close>

definition cleanHtml_of :: "string option \<Rightarrow> string result" where
  "cleanHtml_of reply =
     (case reply of
        None \<Rightarrow> Inl (JSError ''Cannot read properties of undefined (reading 'replace')'')
      | Some html \<Rightarrow>
          Inr (trim (replace_all False (lits ''```'') []
                    (replace_all False (lits ''```html'') [] html))))"

definition site_prompt :: "scraped_input option \<Rightarrow> business_facts \<Rightarrow> string \<Rightarrow> string" where
  "site_prompt scrapedData bi instructions =
     (let websiteContent = websiteContent_of scrapedData;
          imageSection = imageSection_of ''AVAILABLE IMAGES FROM ORIGINAL WEBSITE'' 50
                           (images_of scrapedData)
      in website_prompt bi websiteContent imageSection instructions)"

definition generateWebsiteWithAI :: "api_config \<Rightarrow> llm_env \<Rightarrow> string \<Rightarrow> scraped_input option
       \<Rightarrow> business_facts \<Rightarrow> string \<Rightarrow> generated_site result \<times> llm_request list" where
  "generateWebsiteWithAI cfg le clock scrapedData bi instructions =
     (let prompt = site_prompt scrapedData bi instructions;
          (reply, sent) = callLLM cfg le prompt
                            \<lparr>o_maxTokens = Some (maxWebsiteTokens cfg), o_model = None\<rparr>
      in (try_catch
            (and_then reply (\<lambda>html.
             and_then (cleanHtml_of html) (\<lambda>cleanHtml.
             Inr \<lparr>g_html = cleanHtml,
                  g_title = ''Modern '' @ tpl (bf_name bi) @ '' Website'',
                  g_description = ''AI-generated modern website for '' @ tpl (bf_name bi),
                  g_generatedAt = clock,
                  g_error = None\<rparr>)))
            (\<lambda>error.
             Inr \<lparr>g_html = generateFallbackWebsite bi,
                  g_title = tpl (bf_name bi) @ '' Website'',
                  g_description = ''Professional website for '' @ tpl (bf_name bi),
                  g_generatedAt = clock,
                  g_error = Some (message error)\<rparr>),
          sent))"

subsection \<open>generateOutreachWithAI\<close>









section \<open>Request Layer\<close>

subsection \<open>validateInput\<close>






subsection \<open>parseInt\<close>








section \<open>Site Publisher\<close>

text \<open>
  The directory \<^verbatim>\<open>hosted-sites\<close>: for each site id the text of \<^verbatim>\<open>index.html\<close> and the
  content of \<^verbatim>\<open>meta.json\<close>, which is the metadata object or a text that \<^verbatim>\<open>JSON.parse\<close>
  rejects. A file that does not exist is \<open>None\<close>.
\<close>

record site_meta =
  sm_siteId :: string
  sm_businessName :: "string option"
  sm_createdAt :: string
  sm_lastAccessed :: string
  sm_viewCount :: nat

datatype meta_file = MetaJson site_meta | NotJson













section \<open>Project Store\<close>













section \<open>Recreate\<close>








section \<open>Example inputs\<close>

text \<open>
  An environment for the examples: the mapping finds three links, every page request is
  refused with a rate-limit error, and the direct fetch fails.
\<close>

definition example_env :: env where
  "example_env =
     \<lparr>parseURL = (\<lambda>b. None),
      fc_map = (\<lambda>u. Inr (Some \<lparr>mr_links = Some [LStr ''https://ex.com/blog'',
                                                   LStr ''https://ex.com/About'',
                                                   LObj (Some ''https://ex.com/blog'')]\<rparr>)),
      fc_scrape = (\<lambda>mode i u. Inl (JSError ''Rate limit exceeded'')),
      fetch_text = (\<lambda>u. Inl (JSError ''getaddrinfo ENOTFOUND'')),
      now = ''2025-01-01T00:00:00.000Z''\<rparr>"

text \<open>
  The same with a direct fetch that answers, and an environment whose mapping fails and
  whose single-page scrape returns metadata with a property \<^verbatim>\<open>hasContactInfo\<close>.
\<close>

definition example_env_fetch :: env where
  "example_env_fetch =
     example_env\<lparr>fetch_text := (\<lambda>u. Inr ''<b>a@b.co</b>'')\<rparr>"

definition example_env_meta :: env where
  "example_env_meta =
     example_env\<lparr>fc_map := (\<lambda>u. Inl (JSError ''map failed'')),
                  fc_scrape := (\<lambda>mode i u.
                     Inr (Some \<lparr>pr_markdown = Some ''Hello'',
                                pr_html = None,
                                pr_metadata = Some [(''hasContactInfo'', JBool True)]\<rparr>))\<rparr>"

text \<open>
  A gateway whose provider refuses every request, one whose provider answers with the
  empty text, and the initial configuration with the built-in credential set.
\<close>

definition example_llm_down :: llm_env where
  "example_llm_down =
     \<lparr>GOOGLE_API_KEY = Some ''key'',
      provider_reply = (\<lambda>rq. Inl (JSError ''quota exceeded''))\<rparr>"

definition example_llm_empty :: llm_env where
  "example_llm_empty =
     \<lparr>GOOGLE_API_KEY = Some ''key'',
      provider_reply = (\<lambda>rq. Inr (Some []))\<rparr>"

definition example_config :: api_config where
  "example_config = initial_apiConfig (Some ''key'') None None None"

definition example_facts :: business_facts where
  "example_facts =
     \<lparr>bf_name = Some ''Acme'', bf_industry = None, bf_services = None, bf_issues = None,
      bf_description = None\<rparr>"





section \<open>Properties of the list idioms\<close>


lemma includes_str_sublist: "includes_str s k = sublist k s"
proof (induction s)
  case Nil
  then show ?case by simp
next
  case (Cons c cs)
  then show ?case by (cases k) (auto simp: sublist_Cons_right)
qed

lemma remdups_snoc: "remdups (ys @ [x]) = filter (\<lambda>y. y \<noteq> x) (remdups ys) @ [x]"
  by (induction ys) auto

lemma first_occurrences_Cons:
  "rev (remdups (rev (x # xs))) = x # filter (\<lambda>y. y \<noteq> x) (rev (remdups (rev xs)))"
  by (simp add: remdups_snoc rev_filter)

lemma foldl_set_add_first:
  "foldl set_add seen xs = seen @ filter (\<lambda>x. x \<notin> set seen) (rev (remdups (rev xs)))"
proof (induction xs arbitrary: seen)
  case Nil
  then show ?case by simp
next
  case (Cons x xs)
  show ?case
  proof (cases "x \<in> set seen")
    case True
    then have "filter (\<lambda>y. y \<noteq> x \<and> y \<notin> set seen) (rev (remdups (rev xs)))
             = filter (\<lambda>y. y \<notin> set seen) (rev (remdups (rev xs)))"
      by (intro filter_cong) auto
    with True Cons[of seen] show ?thesis
      by (simp add: set_add_def first_occurrences_Cons del: rev.simps remdups.simps)
  next
    case False
    have "filter (\<lambda>y. y \<notin> set (seen @ [x])) (rev (remdups (rev xs)))
        = filter (\<lambda>y. y \<noteq> x \<and> y \<notin> set seen) (rev (remdups (rev xs)))"
      by (intro filter_cong) auto
    with False Cons[of "seen @ [x]"] show ?thesis
      by (simp add: set_add_def first_occurrences_Cons del: rev.simps remdups.simps)
  qed
qed

lemma new_Set_first_occurrences: "new_Set xs = rev (remdups (rev xs))"
  by (simp add: new_Set_def foldl_set_add_first)

lemma new_Set_distinct: "distinct (new_Set xs)"
  by (simp add: new_Set_first_occurrences)

lemma new_Set_set: "set (new_Set xs) = set xs"
  by (simp add: new_Set_first_occurrences)

lemma new_Set_Cons: "new_Set (x # xs) = x # filter (\<lambda>y. y \<noteq> x) (new_Set xs)"
  by (simp add: new_Set_first_occurrences first_occurrences_Cons del: rev.simps remdups.simps)

lemma findIndex_Some_iff:
  "findIndex p xs = Some i \<longleftrightarrow> i < length xs \<and> p (xs ! i) \<and> (\<forall>j<i. \<not> p (xs ! j))"
proof (induction xs arbitrary: i)
  case Nil
  then show ?case by simp
next
  case (Cons x xs)
  show ?case
  proof (cases "p x")
    case True
    then show ?thesis by (cases i) auto
  next
    case False
    show ?thesis
    proof (cases i)
      case 0
      with False show ?thesis by auto
    next
      case (Suc k)
      have "(\<forall>j<Suc k. \<not> p ((x # xs) ! j)) = (\<forall>j<k. \<not> p (xs ! j))"
        using False by (auto simp: less_Suc_eq_0_disj)
      with False Suc Cons[of k] show ?thesis by auto
    qed
  qed
qed

lemma enumerate_shift:
  "map snd (filter (\<lambda>(i, y). Q i y) (enumerate (Suc n) xs))
   = map snd (filter (\<lambda>(i, y). Q (Suc i) y) (enumerate n xs))"
  by (induction xs arbitrary: n) auto

lemma filter_first_index_Cons:
  "filter_first_index key (x # xs) = x # filter (\<lambda>y. key y \<noteq> key x) (filter_first_index key xs)"
proof -
  have "map snd (filter (\<lambda>(i, y). findIndex (\<lambda>z. key z = key y) (x # xs) = Some i) (enumerate (Suc 0) xs))
      = map snd (filter (\<lambda>(i, y). key y \<noteq> key x \<and> findIndex (\<lambda>z. key z = key y) xs = Some i)
                        (enumerate 0 xs))"
    unfolding enumerate_shift by (intro arg_cong[where f = "map snd"] filter_cong) auto
  also have "\<dots> = filter (\<lambda>y. key y \<noteq> key x) (filter_first_index key xs)"
    unfolding filter_first_index_def filter_map
    by (simp add: comp_def case_prod_unfold conj_commute)
  finally show ?thesis
    by (simp add: filter_first_index_def)
qed

lemma filter_first_index_Nil: "filter_first_index key [] = []"
  by (simp add: filter_first_index_def)


lemma filter_first_index_distinct: "distinct (map key (filter_first_index key xs))"
proof (induction xs)
  case Nil
  then show ?case by (simp add: filter_first_index_Nil)
next
  case (Cons x xs)
  have "distinct (map key (filter (\<lambda>y. key y \<noteq> key x) (filter_first_index key xs)))"
    using Cons by (simp add: distinct_map_filter)
  then show ?case by (auto simp: filter_first_index_Cons)
qed

lemma filter_first_index_subseq: "subseq (filter_first_index key xs) xs"
proof (induction xs)
  case Nil
  then show ?case by (simp add: filter_first_index_Nil)
next
  case (Cons x xs)
  have "subseq (filter (\<lambda>y. key y \<noteq> key x) (filter_first_index key xs)) (filter_first_index key xs)"
    by simp
  with Cons have "subseq (filter (\<lambda>y. key y \<noteq> key x) (filter_first_index key xs)) xs"
    using subseq_order.order_trans by blast
  then show ?case by (simp add: filter_first_index_Cons)
qed

lemma image_key_filter: "key ` {y \<in> S. key y \<noteq> k} = key ` S - {k}"
  by auto

lemma filter_first_index_keys: "key ` set (filter_first_index key xs) = key ` set xs"
proof (induction xs)
  case Nil
  then show ?case by (simp add: filter_first_index_Nil)
next
  case (Cons x xs)
  then show ?case
    by (simp add: filter_first_index_Cons image_key_filter insert_absorb)
qed

lemma filter_first_index_id: "filter_first_index (\<lambda>x. x) xs = rev (remdups (rev xs))"
proof (induction xs)
  case Nil
  then show ?case by (simp add: filter_first_index_Nil)
next
  case (Cons x xs)
  then show ?case
    by (simp add: filter_first_index_Cons first_occurrences_Cons del: rev.simps remdups.simps)
qed


section \<open>Properties of the matcher\<close>


lemma advance_rest: "rest (advance st k) = drop k (rest st)"
  by (simp add: advance_def)

lemma rep_counts_set: "set (rep_counts lo hi g) = {lo..hi}"
  by (auto simp: rep_counts_def)

lemma ms_consumes:
  "st' \<in> set (ms ci r st) \<Longrightarrow>
     \<exists>k. minlen r \<le> k \<and> k \<le> length (rest st) \<and> rest st' = drop k (rest st)"
proof (induction r arbitrary: st st')
  case (Rep cl lo hi g)
  then obtain k where k: "st' = advance st k" "lo \<le> k"
      "k \<le> length (takeWhile (cls_ok ci cl) (rest st))"
    by (auto simp: Let_def rep_counts_set split: option.splits)
  have "length (takeWhile (cls_ok ci cl) (rest st)) \<le> length (rest st)"
    by (rule length_takeWhile_le)
  with k show ?case by (auto simp: advance_rest intro!: exI[of _ k])
next
  case (Seq a b)
  then obtain mid where mid: "mid \<in> set (ms ci a st)" "st' \<in> set (ms ci b mid)"
    by auto
  from Seq.IH(1)[OF mid(1)] obtain k1 where k1: "minlen a \<le> k1" "k1 \<le> length (rest st)"
      "rest mid = drop k1 (rest st)" by blast
  from Seq.IH(2)[OF mid(2)] obtain k2 where k2: "minlen b \<le> k2" "k2 \<le> length (rest mid)"
      "rest st' = drop k2 (rest mid)" by blast
  from k1 k2 show ?case
    by (intro exI[of _ "k1 + k2"]) (auto simp: add.commute)
next
  case (Alt a b)
  then show ?case by (auto simp: min_def) (meson le_trans nat_le_linear)+
next
  case (Grp r)
  then obtain s0 where "s0 \<in> set (ms ci r st)" "rest st' = rest s0" by auto
  with Grp.IH show ?case by auto
next
  case WordB
  then show ?case by (auto split: if_splits intro: exI[of _ 0])
next
  case Eps
  then show ?case by (auto intro: exI[of _ 0])
qed

lemma ms_cap_kept: "st' \<in> set (ms ci r st) \<Longrightarrow> cap st \<noteq> None \<Longrightarrow> cap st' \<noteq> None"
proof (induction r arbitrary: st st')
  case (Rep cl lo hi g)
  then show ?case by (auto simp: Let_def advance_def)
next
  case (Seq a b)
  then obtain mid where mid: "mid \<in> set (ms ci a st)" "st' \<in> set (ms ci b mid)"
    by auto
  from Seq.IH(1)[OF mid(1) Seq.prems(2)] have "cap mid \<noteq> None" .
  from Seq.IH(2)[OF mid(2) this] show ?case .
qed (auto split: if_splits)

lemma ms_captures: "captures r \<Longrightarrow> st' \<in> set (ms ci r st) \<Longrightarrow> cap st' \<noteq> None"
proof (induction r arbitrary: st st')
  case (Seq a b)
  then obtain mid where mid: "mid \<in> set (ms ci a st)" "st' \<in> set (ms ci b mid)"
    by auto
  show ?case
  proof (cases "captures a")
    case True
    with Seq.IH(1) mid(1) have "cap mid \<noteq> None" by blast
    with mid(2) show ?thesis using ms_cap_kept by blast
  next
    case False
    with Seq.prems(1) have "captures b" by simp
    with Seq.IH(2) mid(2) show ?thesis by blast
  qed
qed auto

lemma search_Some:
  "search ci r p s = Some m \<Longrightarrow>
     s = m_pre m @ m_text m @ m_post m \<and> minlen r \<le> length (m_text m)
     \<and> (captures r \<longrightarrow> m_group m \<noteq> None)"
proof (induction s arbitrary: p m)
  case Nil
  then obtain st where st: "st \<in> set (ms ci r \<lparr>prev = p, rest = [], cap = None\<rparr>)"
      "m = \<lparr>m_pre = [], m_text = [], m_group = cap st, m_post = rest st\<rparr>"
    by (auto simp: search.simps[of ci r p "[]"] split: list.splits)
  from ms_consumes[OF st(1)] ms_captures[OF _ st(1)] st(2) show ?case by auto
next
  case (Cons c cs)
  show ?case
  proof (cases "ms ci r \<lparr>prev = p, rest = c # cs, cap = None\<rparr>")
    case Nil
    with Cons.prems obtain m' where m': "search ci r (Some c) cs = Some m'"
        "m = m'\<lparr>m_pre := c # m_pre m'\<rparr>"
      by (auto simp: search.simps[of ci r p "c # cs"])
    from Cons.IH[OF m'(1)] m'(2) show ?thesis by auto
  next
    case (Cons st sts)
    then have st: "st \<in> set (ms ci r \<lparr>prev = p, rest = c # cs, cap = None\<rparr>)" by simp
    from Cons Cons.prems have m: "m = \<lparr>m_pre = [], m_text = take (length (c # cs) - length (rest st)) (c # cs),
                         m_group = cap st, m_post = rest st\<rparr>"
      by (simp add: search.simps[of ci r p "c # cs"])
    from ms_consumes[OF st] obtain k where k: "minlen r \<le> k" "k \<le> length (c # cs)"
        "rest st = drop k (c # cs)" by auto
    then have "length (c # cs) - length (rest st) = k" by simp
    with m k ms_captures[OF _ st] show ?thesis
      by (simp del: take.simps drop.simps length_Cons add: min_absorb2)
  qed
qed

lemma search_text_length: "search ci r p s = Some m \<Longrightarrow> minlen r \<le> length (m_text m)"
  by (simp add: search_Some)

lemma search_post_length: "search ci r p s = Some m \<Longrightarrow> length (m_post m) \<le> length s"
  using search_Some[of ci r p s m] by (metis le_add2 length_append trans_le_add2)

lemma scan_texts:
  "m \<in> set (fst (scan ci r p s)) \<Longrightarrow> minlen r \<le> length (m_text m)"
proof (induction ci r p s arbitrary: m rule: scan.induct)
  case (1 ci r p s)
  show ?case
  proof (cases "search ci r p s")
    case None
    with "1.prems" show ?thesis by (simp add: scan.simps)
  next
    case (Some m0)
    note len0 = search_text_length[OF Some]
    show ?thesis
    proof (cases "m_text m0 \<noteq> [] \<and> length (m_post m0) < length s")
      case True
      with Some "1.prems" have "m = m0 \<or> m \<in> set (fst (scan ci r (Some (last (m_text m0))) (m_post m0)))"
        by (auto simp: scan.simps[of ci r p s] split: prod.splits)
      with "1.IH"(1)[OF Some True] len0 show ?thesis by auto
    next
      case False
      show ?thesis
      proof (cases "m_post m0")
        case Nil
        with Some False "1.prems" len0 show ?thesis
          by (auto simp: scan.simps[of ci r p s])
      next
        case (Cons c cs)
        show ?thesis
        proof (cases "length cs < length s")
          case True
          have push: "\<And>x res. x \<in> set (fst (push_char c res)) \<Longrightarrow>
                    \<exists>y \<in> set (fst res). m_text x = m_text y"
          proof -
            fix x res
            assume x: "x \<in> set (fst (push_char c res))"
            obtain rs tail where res: "res = (rs, tail)" by (cases res)
            show "\<exists>y \<in> set (fst res). m_text x = m_text y"
              using x unfolding res by (cases rs) auto
          qed
          from Some False Cons True "1.prems"
          have "m = m0 \<or> m \<in> set (fst (push_char c (scan ci r (Some c) cs)))"
            by (auto simp: scan.simps[of ci r p s] split: prod.splits)
          then show ?thesis
          proof
            assume "m = m0"
            with len0 show ?thesis by simp
          next
            assume "m \<in> set (fst (push_char c (scan ci r (Some c) cs)))"
            from push[OF this] obtain y where y: "y \<in> set (fst (scan ci r (Some c) cs))"
                "m_text m = m_text y" by blast
            from "1.IH"(2)[OF Some False Cons True y(1)] y(2) show ?thesis by simp
          qed
        next
          case False2: False
          with Some False Cons "1.prems" len0 show ?thesis
            by (auto simp: scan.simps[of ci r p s])
        qed
      qed
    qed
  qed
qed

lemma first_match_length: "first_match r c = Some x \<Longrightarrow> minlen r \<le> length x"
  using scan_texts[of _ False r None c]
  by (auto simp: first_match_def match_all_def split: list.splits)


section \<open>Properties of the Content Extractor\<close>


lemma minlen_seqs_lits: "minlen (lits s) = length s"
proof (induction s rule: induct_list012)
  case 1
  then show ?case by (simp add: lits_def)
next
  case (2 x)
  then show ?case by (simp add: lits_def lit_def one_def)
next
  case (3 x y zs)
  then show ?case by (simp add: lits_def lit_def one_def)
qed

lemma minlen_emailRegex: "minlen emailRegex = 6"
  by (simp add: emailRegex_def plus_def lit_def one_def)

lemma minlen_phoneRegex: "minlen phoneRegex = 4"
  by (simp add: phoneRegex_def opt_def)

lemma email_truthy: "truthy (email (extractBusinessInfo c)) = (email (extractBusinessInfo c) \<noteq> None)"
proof (cases "first_match emailRegex c")
  case None
  then show ?thesis by (simp add: extractBusinessInfo_def truthy_def)
next
  case (Some x)
  from first_match_length[OF Some] have "x \<noteq> []" by (auto simp: minlen_emailRegex)
  with Some show ?thesis by (simp add: extractBusinessInfo_def truthy_def)
qed

lemma phone_truthy: "truthy (phone (extractBusinessInfo c)) = (phone (extractBusinessInfo c) \<noteq> None)"
proof (cases "first_match phoneRegex c")
  case None
  then show ?thesis by (simp add: extractBusinessInfo_def truthy_def)
next
  case (Some x)
  from first_match_length[OF Some] have "x \<noteq> []" by (auto simp: minlen_phoneRegex)
  with Some show ?thesis by (simp add: extractBusinessInfo_def truthy_def)
qed

lemma captures_hrefRegex: "captures hrefRegex" "captures srcRegex" "captures altRegex"
  by (simp_all add: hrefRegex_def srcRegex_def altRegex_def)

lemma captures_titleRegex: "captures titleRegex" "captures (metaRegex a v)"
  by (simp_all add: titleRegex_def metaRegex_def)

lemma try_catch_Inr: "try_catch body (\<lambda>error. Inr d) = Inr (case body of Inl e \<Rightarrow> d | Inr v \<Rightarrow> v)"
  by (simp add: try_catch_def split: sum.splits)


lemma map_try_total: "map f xs = map Inr ys \<Longrightarrow> map_try f xs = Inr ys"
  by (induction xs arbitrary: ys) (auto split: sum.splits)

lemma map_try_all_Inr: "map_try (\<lambda>x. Inr (g x)) xs = Inr (map g xs)"
  by (rule map_try_total) simp


lemma and_then_Inr [simp]: "and_then (Inr v) f = f v"
  by (simp add: and_then_def)

lemma and_then_Inl [simp]: "and_then (Inl e) f = Inl e"
  by (simp add: and_then_def)

lemma link_of_match_Some:
  "P b = Some u \<Longrightarrow>
   link_of_match P b =
     (\<lambda>m. Inr (if startsWith (replace_first_group False hrefRegex m) ''/''
                then origin u @ replace_first_group False hrefRegex m
                else replace_first_group False hrefRegex m))"
  by (rule ext) (simp add: link_of_match_def Let_def)

lemma link_of_match_None:
  "P b = None \<Longrightarrow>
   link_of_match P b =
     (\<lambda>m. if startsWith (replace_first_group False hrefRegex m) ''/''
          then Inl (JSError ''Invalid URL'')
          else Inr (replace_first_group False hrefRegex m))"
  by (rule ext) (simp add: link_of_match_def Let_def)

lemma map_try_if_Inl:
  "map_try (\<lambda>x. if p x then Inl err else Inr (g x)) xs =
     (if list_ex p xs then Inl err else Inr (map g xs))"
  by (induction xs) (auto split: sum.splits)

lemma extractLinks_eq:
  "extractLinks P html b =
     Inr (case P b of
            Some u \<Rightarrow>
              take 15 (rev (remdups (rev (filter (\<lambda>l. startsWith l ''http'')
                (map (\<lambda>m. if startsWith (replace_first_group False hrefRegex m) ''/''
                          then origin u @ replace_first_group False hrefRegex m
                          else replace_first_group False hrefRegex m)
                     (match_all True hrefRegex html))))))
          | None \<Rightarrow>
              if list_ex (\<lambda>m. startsWith (replace_first_group False hrefRegex m) ''/'')
                         (match_all True hrefRegex html)
              then []
              else take 15 (rev (remdups (rev (filter (\<lambda>l. startsWith l ''http'')
                     (map (replace_first_group False hrefRegex) (match_all True hrefRegex html)))))))"
proof (cases "P b")
  case None
  show ?thesis
    unfolding extractLinks_def link_of_match_None[of P b, OF None] map_try_if_Inl
    by (simp add: None try_catch_def filter_first_index_id)
next
  case (Some u)
  show ?thesis
    unfolding extractLinks_def link_of_match_Some[of P b, OF Some] map_try_all_Inr
    by (simp add: Some try_catch_def filter_first_index_id)
qed

lemma keep_links:
  fixes ls :: "string list"
  defines "ks \<equiv> take 15 (rev (remdups (rev (filter (\<lambda>l. startsWith l ''http'') ls))))"
  shows "distinct ks" "length ks \<le> 15" "\<forall>l \<in> set ks. startsWith l ''http''"
proof -
  show "distinct ks" unfolding ks_def by (intro distinct_take) simp
  show "length ks \<le> 15" unfolding ks_def by simp
  show "\<forall>l \<in> set ks. startsWith l ''http''"
    unfolding ks_def by (auto dest!: in_set_takeD)
qed

lemma group1_captures:
  "captures r \<Longrightarrow> search ci r p s = Some m \<Longrightarrow> \<exists>g. m_group m = Some g \<and> group1 m = Inr g"
  using search_Some[of ci r p s m] by (auto simp: group1_def)

lemma alt_of_tag_None: "match_first True altRegex tag = None \<Longrightarrow> alt_of_tag tag = Inr []"
  by (simp add: alt_of_tag_def)

lemma alt_of_tag_Some:
  "match_first True altRegex tag = Some m \<Longrightarrow> \<exists>g. m_group m = Some g \<and> alt_of_tag tag = Inr g"
  using group1_captures[OF captures_hrefRegex(3), of True None tag m]
  by (auto simp: alt_of_tag_def match_first_def)

lemma alt_of_tag_total: "\<exists>a. alt_of_tag tag = Inr a"
  using alt_of_tag_None[of tag] alt_of_tag_Some[of tag]
  by (cases "match_first True altRegex tag") auto





lemma extractImages_cases:
  "(\<exists>err. map_try (image_of_tag P b) (match_all True imgRegex html) = Inl err
          \<and> extractImages P html b = Inr [])
   \<or> (\<exists>imgs. map_try (image_of_tag P b) (match_all True imgRegex html) = Inr imgs
          \<and> extractImages P html b = Inr (take 100 (filter_first_index img_url (kept_images imgs))))"
  by (cases "map_try (image_of_tag P b) (match_all True imgRegex html)")
     (simp_all add: extractImages_def try_catch_def)

lemma extractImages_props:
  "\<exists>imgs. extractImages P html b = Inr imgs \<and> length imgs \<le> 100 \<and> distinct (map img_url imgs)"
proof -
  have "distinct (map img_url (take 100 (filter_first_index img_url xs)))" for xs :: "image list"
  proof -
    have "distinct (take 100 (map img_url (filter_first_index img_url xs)))"
      by (intro distinct_take filter_first_index_distinct)
    then show ?thesis by (simp add: take_map)
  qed
  then show ?thesis
    using extractImages_cases[of P b html] by auto
qed






section \<open>Claims about the Content Extractor\<close>


text \<open>
  \<^bold>\<open>C4\<close> (as amended). For every page text and base URL, \<open>extractLinks\<close> returns a list
  in which every link begins with the four characters \<^verbatim>\<open>http\<close> (which admits
  \<^verbatim>\<open>http://\<close> and \<^verbatim>\<open>https://\<close> URLs, and also any other reference that begins so), no link
  occurs twice, and there are at most 15 links. The list is the first 15 of the
  first occurrences, in the order of the page, of the references that begin with
  \<^verbatim>\<open>http\<close>, where a root-relative reference (one that begins with \<^verbatim>\<open>/\<close>) has been put
  behind the origin of the base URL; when the base URL does not parse and some reference is
  root-relative, the list is empty.
\<close>

theorem extractLinks_absolute_distinct_capped:
  fixes P :: url_parser
  shows "\<exists>ls. extractLinks P html b = Inr ls
          \<and> list_all (\<lambda>l. startsWith l ''http'') ls
          \<and> distinct ls
          \<and> length ls \<le> 15
          \<and> ls = (case P b of
                     Some u \<Rightarrow>
                       take 15 (rev (remdups (rev (filter (\<lambda>l. startsWith l ''http'')
                         (map (\<lambda>m. if startsWith (replace_first_group False hrefRegex m) ''/''
                                   then origin u @ replace_first_group False hrefRegex m
                                   else replace_first_group False hrefRegex m)
                              (match_all True hrefRegex html))))))
                   | None \<Rightarrow>
                       if list_ex (\<lambda>m. startsWith (replace_first_group False hrefRegex m) ''/'')
                                  (match_all True hrefRegex html)
                       then []
                       else take 15 (rev (remdups (rev (filter (\<lambda>l. startsWith l ''http'')
                              (map (replace_first_group False hrefRegex)
                                   (match_all True hrefRegex html)))))))"
proof -
  let ?keep = "\<lambda>xs. take 15 (rev (remdups (rev (filter (\<lambda>l. startsWith l ''http'') xs))))"
  let ?hrefs = "map (replace_first_group False hrefRegex) (match_all True hrefRegex html)"
  let ?R = "case P b of
              Some u \<Rightarrow>
                ?keep (map (\<lambda>m. if startsWith (replace_first_group False hrefRegex m) ''/''
                                then origin u @ replace_first_group False hrefRegex m
                                else replace_first_group False hrefRegex m)
                           (match_all True hrefRegex html))
            | None \<Rightarrow>
                if list_ex (\<lambda>m. startsWith (replace_first_group False hrefRegex m) ''/'')
                           (match_all True hrefRegex html)
                then [] else ?keep ?hrefs"
  have k: "list_all (\<lambda>l. startsWith l ''http'') (?keep xs) \<and> distinct (?keep xs)
           \<and> length (?keep xs) \<le> 15" for xs :: "string list"
    using keep_links[of xs] by (simp only: list_all_iff)
  have e: "extractLinks P html b = Inr ?R"
    by (rule extractLinks_eq)
  have p: "list_all (\<lambda>l. startsWith l ''http'') ?R \<and> distinct ?R \<and> length ?R \<le> 15"
  proof (cases "P b")
    case None
    show ?thesis
    proof (cases "list_ex (\<lambda>m. startsWith (replace_first_group False hrefRegex m) ''/'')
                          (match_all True hrefRegex html)")
      case True
      with None show ?thesis by simp
    next
      case False
      with None k[of ?hrefs] show ?thesis by (simp only: option.case if_False)
    qed
  next
    case (Some u)
    with k[of "map (\<lambda>m. if startsWith (replace_first_group False hrefRegex m) ''/''
                                then origin u @ replace_first_group False hrefRegex m
                                else replace_first_group False hrefRegex m)
                           (match_all True hrefRegex html)"]
    show ?thesis by (simp only: option.case)
  qed
  from e p show ?thesis by blast
qed

theorem extractLinks_absolute_distinct_capped_witness:
  "extractLinks (\<lambda>b. if b = ''https://example.com/shop''
                    then Some \<lparr>origin = ''https://example.com'', pathname = ''/shop''\<rparr> else None)
     ''<a href=\"/a\">A</a> <a href='http://x.y/z'>Z</a> <a href=\"/a\">again</a> <a href=\"mailto:me@x.y\">''
     ''https://example.com/shop''
   = Inr [''https://example.com/a'', ''http://x.y/z'']
   \<and> list_all (\<lambda>l. startsWith l ''http'') [''https://example.com/a'', ''http://x.y/z'']"
proof -
  have v: "extractLinks (\<lambda>b. if b = ''https://example.com/shop''
                    then Some \<lparr>origin = ''https://example.com'', pathname = ''/shop''\<rparr> else None)
     ''<a href=\"/a\">A</a> <a href='http://x.y/z'>Z</a> <a href=\"/a\">again</a> <a href=\"mailto:me@x.y\">''
     ''https://example.com/shop''
   = Inr [''https://example.com/a'', ''http://x.y/z'']"
    by code_simp
  from extractLinks_absolute_distinct_capped[of
      "\<lambda>b. if b = ''https://example.com/shop''
            then Some \<lparr>origin = ''https://example.com'', pathname = ''/shop''\<rparr> else None"
      "''<a href=\"/a\">A</a> <a href='http://x.y/z'>Z</a> <a href=\"/a\">again</a> <a href=\"mailto:me@x.y\">''"
      "''https://example.com/shop''"]
  obtain ls where "extractLinks (\<lambda>b. if b = ''https://example.com/shop''
                    then Some \<lparr>origin = ''https://example.com'', pathname = ''/shop''\<rparr> else None)
     ''<a href=\"/a\">A</a> <a href='http://x.y/z'>Z</a> <a href=\"/a\">again</a> <a href=\"mailto:me@x.y\">''
     ''https://example.com/shop'' = Inr ls" "list_all (\<lambda>l. startsWith l ''http'') ls"
    by blast
  with v show ?thesis by simp
qed

text \<open>
  \<^bold>\<open>C4\<close> (as stated) fails: a reference \<^verbatim>\<open>http.html\<close> is relative, begins with
  \<^verbatim>\<open>http\<close> and is returned as it stands.
\<close>

theorem extractLinks_relative_counterexample:
  "extractLinks (\<lambda>b. Some \<lparr>origin = ''https://example.com'', pathname = ''/''\<rparr>)
     ''<a href=\"http.html\">'' ''https://example.com/'' = Inr [''http.html'']
   \<and> \<not> startsWith ''http.html'' ''http:''
   \<and> \<not> startsWith ''http.html'' ''https:''"
  by code_simp







section \<open>Properties of the Scrape Orchestrator\<close>


lemma extractLinks_total: "\<exists>ls. extractLinks P html b = Inr ls"
  by (simp add: extractLinks_eq)

lemma extractImages_total: "\<exists>imgs. extractImages P html b = Inr imgs"
  using extractImages_props[of P html b] by blast

lemma group1_title:
  "match_first True titleRegex html = Some m \<Longrightarrow> \<exists>g. group1 m = Inr g"
  using group1_captures[OF captures_titleRegex(1), of True None html m]
  by (auto simp: match_first_def)

lemma group1_meta:
  "first_of (match_first True (metaRegex a1 v1) html) (match_first True (metaRegex a2 v2) html) = Some m
   \<Longrightarrow> \<exists>g. group1 m = Inr g"
  using group1_captures[OF captures_titleRegex(2), of True a1 v1 None html m]
        group1_captures[OF captures_titleRegex(2), of True a2 v2 None html m]
  by (auto simp: match_first_def first_of_def split: option.splits)

lemma hasContactInfo_extract:
  "hasContactInfo (extractBusinessInfo c)
   = (email (extractBusinessInfo c) \<noteq> None \<or> phone (extractBusinessInfo c) \<noteq> None)"
  by (simp add: hasContactInfo_def email_truthy phone_truthy)

lemma enhanced_site_Inr:
  "\<exists>site. enhanced_site e url html = Inr site
     \<and> method_of site = Some (JStr ''enhanced'')
     \<and> contact_flag site = Some (JBool (has_contact site))"
proof -
  obtain ls where ls: "extractLinks (parseURL e) html url = Inr ls"
    using extractLinks_total by blast
  obtain imgs where imgs: "extractImages (parseURL e) html url = Inr imgs"
    using extractImages_total by blast
  obtain t where t: "(case match_first True titleRegex html of
                     None \<Rightarrow> Inr ''Website Title''
                   | Some m \<Rightarrow> and_then (group1 m) (\<lambda>g. Inr (trim g))) = Inr t"
    using group1_title[of html] by (cases "match_first True titleRegex html") auto
  obtain d where d: "(case first_of (match_first True (metaRegex ''name'' ''description'') html)
                               (match_first True (metaRegex ''property'' ''og:description'') html) of
                     None \<Rightarrow> Inr (extractDescriptionFromContent (textContent_of html))
                   | Some m \<Rightarrow> and_then (group1 m) (\<lambda>g. Inr (trim g))) = Inr d"
    using group1_meta[of "''name''" "''description''" html "''property''" "''og:description''"]
    by (cases "first_of (match_first True (metaRegex ''name'' ''description'') html)
                               (match_first True (metaRegex ''property'' ''og:description'') html)") auto
  show ?thesis
    unfolding enhanced_site_def Let_def ls imgs t d
    by (simp add: obj_get_def hasContactInfo_extract method_of_def contact_flag_def has_contact_def)
qed

lemma fallback_site_facts:
  "method_of (fallback_site e url err) = Some (JStr ''fallback'')"
  "obj_get (metadata (fallback_site e url err)) ''error'' = Some (JStr (message err))"
  "contact_flag (fallback_site e url err) = None"
  "\<not> has_contact (fallback_site e url err)"
  by (simp_all add: fallback_site_def method_of_def contact_flag_def has_contact_def obj_get_def)

lemma enhancedScrapeWebsite_fst:
  "fst (enhancedScrapeWebsite e url) =
     (case fetch_text e url of
        Inl err \<Rightarrow> Inr (fallback_site e url err)
      | Inr html \<Rightarrow> enhanced_site e url html)"
proof (cases "fetch_text e url")
  case (Inl err)
  then show ?thesis by (simp add: enhancedScrapeWebsite_def try_catch_def)
next
  case (Inr html)
  obtain site where "enhanced_site e url html = Inr site"
    using enhanced_site_Inr[of e url html] by blast
  with Inr show ?thesis by (simp add: enhancedScrapeWebsite_def try_catch_def)
qed

lemma enhancedScrapeWebsite_snd: "snd (enhancedScrapeWebsite e url) = [EvFetch url]"
  by (simp add: enhancedScrapeWebsite_def)

lemma enhancedScrapeWebsite_good:
  "\<exists>site. fst (enhancedScrapeWebsite e url) = Inr site
     \<and> (contact_flag site = Some (JBool (has_contact site))
        \<or> (method_of site = Some (JStr ''fallback'') \<and> contact_flag site = None
            \<and> \<not> has_contact site))"
proof (cases "fetch_text e url")
  case (Inl err)
  then show ?thesis by (simp add: enhancedScrapeWebsite_fst fallback_site_facts)
next
  case (Inr html)
  with enhanced_site_Inr[of e url html] show ?thesis
    by (auto simp: enhancedScrapeWebsite_fst)
qed

lemma map_of_obj_set: "map_of (obj_set k v ob) = (map_of ob)(k \<mapsto> v)"
  by (induction ob) (auto simp: fun_eq_iff)

lemma obj_spread_other:
  "obj_get extra k = None \<Longrightarrow> obj_get (obj_spread base extra) k = obj_get base k"
proof (induction extra arbitrary: base)
  case Nil
  then show ?case by (simp add: obj_spread_def)
next
  case (Cons p ps)
  obtain k' v' where p: "p = (k', v')" by (cases p)
  from Cons.prems p have ne: "k' \<noteq> k" and rest: "obj_get ps k = None"
    by (auto simp: obj_get_def split: if_splits)
  have "obj_get (obj_spread (obj_set k' v' base) ps) k = obj_get (obj_set k' v' base) k"
    by (rule Cons.IH[OF rest])
  also have "\<dots> = obj_get base k"
    using ne by (simp add: obj_get_def map_of_obj_set)
  finally show ?case by (simp add: obj_spread_def p)
qed

lemma single_site_good:
  assumes "single_site e url res = Inr site"
    and "case res of Some r \<Rightarrow> (case pr_metadata r of None \<Rightarrow> True
                                   | Some m \<Rightarrow> obj_get m ''hasContactInfo'' = None)
                   | None \<Rightarrow> True"
  shows "contact_flag site = Some (JBool (has_contact site))"
proof -
  from assms(1) obtain r where r: "res = Some r" "truthy (pr_markdown r)"
    by (auto simp: single_site_def split: option.splits if_splits)
  define meta where "meta = (case pr_metadata r of None \<Rightarrow> [] | Some m \<Rightarrow> m)"
  from assms(2) r have plain: "obj_get meta ''hasContactInfo'' = None"
    by (auto simp: meta_def obj_get_def split: option.splits)
  obtain ls where ls: "extractLinks (parseURL e) (or_else (pr_html r) []) url = Inr ls"
    using extractLinks_total by blast
  obtain imgs where imgs: "extractImages (parseURL e) (or_else (pr_html r) []) url = Inr imgs"
    using extractImages_total by blast
  from assms(1) r have "single_site e url (Some r) = Inr site" by simp
  with r(2) have
    "businessInfo site = extractBusinessInfo (or_else (pr_markdown r) [])"
    "metadata site = obj_spread
                        [(''scrapedAt'', JStr (now e)),
                         (''url'', JStr url),
                         (''method'', JStr ''firecrawl-single''),
                         (''wordCount'', JNum (wordCount (or_else (pr_markdown r) []))),
                         (''imageCount'', JNum (int (length imgs))),
                         (''hasContactInfo'', JBool (hasContactInfo (extractBusinessInfo (or_else (pr_markdown r) []))))]
                        meta"
    by (auto simp: single_site_def Let_def meta_def ls imgs)
  then have "contact_flag site = Some (JBool (hasContactInfo (businessInfo site)))"
    by (simp add: contact_flag_def obj_spread_other[OF plain]) (simp add: obj_get_def)
  with \<open>businessInfo site = extractBusinessInfo (or_else (pr_markdown r) [])\<close>
  show ?thesis
    by (simp add: has_contact_def hasContactInfo_extract)
qed

lemma scrapeSinglePage_cases:
  "(\<exists>site. fst (scrapeSinglePage e url) = Inr site
          \<and> and_then (fc_scrape e SinglePage 0 (Some url)) (single_site e url) = Inr site)
   \<or> fst (scrapeSinglePage e url) = fst (enhancedScrapeWebsite e url)"
  by (cases "and_then (fc_scrape e SinglePage 0 (Some url)) (single_site e url)")
     (auto simp: scrapeSinglePage_def split: prod.splits)

lemma scrapeSinglePage_good:
  assumes "plain_page_metadata e url"
  shows "\<exists>site. fst (scrapeSinglePage e url) = Inr site
     \<and> (contact_flag site = Some (JBool (has_contact site))
        \<or> (method_of site = Some (JStr ''fallback'') \<and> contact_flag site = None
            \<and> \<not> has_contact site))"
  using scrapeSinglePage_cases[of e url]
proof
  assume "\<exists>site. fst (scrapeSinglePage e url) = Inr site
          \<and> and_then (fc_scrape e SinglePage 0 (Some url)) (single_site e url) = Inr site"
  then obtain site where site: "fst (scrapeSinglePage e url) = Inr site"
      "and_then (fc_scrape e SinglePage 0 (Some url)) (single_site e url) = Inr site" by blast
  then obtain res where res: "fc_scrape e SinglePage 0 (Some url) = Inr res"
      "single_site e url res = Inr site"
    by (cases "fc_scrape e SinglePage 0 (Some url)") auto
  from assms res(1) have "case res of Some r \<Rightarrow> (case pr_metadata r of None \<Rightarrow> True
                                   | Some m \<Rightarrow> obj_get m ''hasContactInfo'' = None)
                   | None \<Rightarrow> True"
    by (auto simp: plain_page_metadata_def split: option.splits)
  from single_site_good[OF res(2) this] site(1) show ?thesis by blast
next
  assume "fst (scrapeSinglePage e url) = fst (enhancedScrapeWebsite e url)"
  with enhancedScrapeWebsite_good[of e url] show ?thesis by simp
qed

lemma scrapeSinglePage_total: "\<exists>site. fst (scrapeSinglePage e url) = Inr site"
  using scrapeSinglePage_cases[of e url] enhancedScrapeWebsite_good[of e url] by auto


lemma assign_info_truthy:
  assumes "truthy (email t) = (email t \<noteq> None)" and "truthy (phone t) = (phone t \<noteq> None)"
  shows "truthy (email (assign_info t (extractBusinessInfo c)))
           = (email (assign_info t (extractBusinessInfo c)) \<noteq> None)
       \<and> truthy (phone (assign_info t (extractBusinessInfo c)))
           = (phone (assign_info t (extractBusinessInfo c)) \<noteq> None)"
  using assms email_truthy[of c] phone_truthy[of c]
  by (auto simp: assign_info_def first_of_def split: option.splits)

lemma agg_page_Inr:
  "\<exists>a'. agg_page e url a page = Inr a'
        \<and> allBusinessInfo a' = assign_info (allBusinessInfo a) (extractBusinessInfo (pg_markdown page))"
proof -
  obtain ls where ls: "extractLinks (parseURL e) (or_else (pg_html page) []) (tpl (pg_url page)) = Inr ls"
    using extractLinks_total by blast
  obtain imgs where imgs: "extractImages (parseURL e) (or_else (pg_html page) []) (tpl (pg_url page)) = Inr imgs"
    using extractImages_total by blast
  show ?thesis
    by (simp add: agg_page_def Let_def ls imgs)
qed

lemma agg_pages_Inr:
  assumes "truthy (email (allBusinessInfo a)) = (email (allBusinessInfo a) \<noteq> None)"
    and "truthy (phone (allBusinessInfo a)) = (phone (allBusinessInfo a) \<noteq> None)"
  shows "\<exists>a'. agg_pages e url a pages = Inr a'
        \<and> truthy (email (allBusinessInfo a')) = (email (allBusinessInfo a') \<noteq> None)
        \<and> truthy (phone (allBusinessInfo a')) = (phone (allBusinessInfo a') \<noteq> None)"
  using assms
proof (induction pages arbitrary: a)
  case Nil
  then show ?case by simp
next
  case (Cons page pages)
  from agg_page_Inr[of e url a page] obtain a1 where a1: "agg_page e url a page = Inr a1"
    "allBusinessInfo a1 = assign_info (allBusinessInfo a) (extractBusinessInfo (pg_markdown page))"
    by blast
  from assign_info_truthy[OF Cons.prems, of "pg_markdown page"] a1(2)
  have "truthy (email (allBusinessInfo a1)) = (email (allBusinessInfo a1) \<noteq> None)"
       "truthy (phone (allBusinessInfo a1)) = (phone (allBusinessInfo a1) \<noteq> None)"
    by simp_all
  from Cons.IH[OF this] a1(1) show ?case by simp
qed

lemma agg_init_truthy:
  "truthy (email (allBusinessInfo agg_init)) = (email (allBusinessInfo agg_init) \<noteq> None)"
  "truthy (phone (allBusinessInfo agg_init)) = (phone (allBusinessInfo agg_init) \<noteq> None)"
  by (simp_all add: agg_init_def truthy_def)

lemma finalData_good:
  assumes "truthy (email (allBusinessInfo a)) = (email (allBusinessInfo a) \<noteq> None)"
    and "truthy (phone (allBusinessInfo a)) = (phone (allBusinessInfo a) \<noteq> None)"
  shows "contact_flag (finalData e url ds pages a) = Some (JBool (has_contact (finalData e url ds pages a)))"
    and "method_of (finalData e url ds pages a) = Some (JStr ''firecrawl-sitemap-comprehensive'')"
  using assms
  by (simp_all add: finalData_def Let_def contact_flag_def method_of_def has_contact_def obj_get_def
                    hasContactInfo_def)

lemma sitemap_requests_append:
  "sitemap_requests (xs @ ys) = sitemap_requests xs @ sitemap_requests ys"
  by (simp add: sitemap_requests_def List.map_filter_def)

lemma sitemap_requests_simps:
  "sitemap_requests [] = []"
  "sitemap_requests (EvMap u # evs) = sitemap_requests evs"
  "sitemap_requests (EvSleep n # evs) = sitemap_requests evs"
  "sitemap_requests (EvFetch u # evs) = sitemap_requests evs"
  "sitemap_requests (EvScrape SinglePage v # evs) = sitemap_requests evs"
  "sitemap_requests (EvScrape SitemapPage v # evs) = v # sitemap_requests evs"
  by (simp_all add: sitemap_requests_def List.map_filter_def)

lemma scrape_pages_requests: "sitemap_requests (snd (scrape_pages e n i urls)) = urls"
proof (induction urls arbitrary: i)
  case Nil
  then show ?case by (simp add: sitemap_requests_simps)
next
  case (Cons u urls)
  obtain pages evs where rec: "scrape_pages e n (i + 1) urls = (pages, evs)"
    by (cases "scrape_pages e n (i + 1) urls")
  with Cons.IH[of "i + 1"] have "sitemap_requests evs = urls" by simp
  with rec show ?case
    by (auto simp: sitemap_requests_simps sitemap_requests_append Let_def
             split: sum.splits option.splits)
qed

lemma scrape_pages_all_failed:
  "(\<And>i u. page_failed (fc_scrape e SitemapPage i u)) \<Longrightarrow> fst (scrape_pages e n i urls) = []"
proof (induction urls arbitrary: i)
  case Nil
  then show ?case by simp
next
  case (Cons u urls)
  obtain pages evs where rec: "scrape_pages e n (i + 1) urls = (pages, evs)"
    by (cases "scrape_pages e n (i + 1) urls")
  with Cons.IH[OF Cons.prems, of "i + 1"] have "pages = []" by simp
  with rec Cons.prems[of i u] show ?case
    by (auto simp: page_failed_def Let_def split: sum.splits option.splits)
qed

lemma enhanced_requests: "sitemap_requests (snd (enhancedScrapeWebsite e url)) = []"
  by (simp add: enhancedScrapeWebsite_snd sitemap_requests_simps)

lemma single_requests: "sitemap_requests (snd (scrapeSinglePage e url)) = []"
  by (auto simp: scrapeSinglePage_def enhancedScrapeWebsite_def sitemap_requests_simps
           split: sum.splits prod.splits)


lemma enhancedScrapeWebsite_total: "\<exists>site. fst (enhancedScrapeWebsite e url) = Inr site"
  using enhancedScrapeWebsite_good[of e url] by blast

lemma professional_no_links:
  assumes "case fc_map e url of Inl err \<Rightarrow> True | Inr mr \<Rightarrow> discovered mr = []"
  shows "fst (professionalScrapeWebsite e url) = fst (scrapeSinglePage e url)"
    and "sitemap_requests (snd (professionalScrapeWebsite e url)) = []"
  using assms single_requests[of e url]
  by (auto simp: professionalScrapeWebsite_def sitemap_requests_simps split: sum.splits prod.splits)

lemma professional_links:
  assumes "fc_map e url = Inr mr" and "discovered mr \<noteq> []"
    and "scrape_pages e (length (urlsToScrape url (discovered mr))) 0 (urlsToScrape url (discovered mr))
         = (pages, evs)"
  shows "pages = [] \<Longrightarrow> fst (professionalScrapeWebsite e url) = fst (enhancedScrapeWebsite e url)"
    and "pages \<noteq> [] \<Longrightarrow> agg_pages e url agg_init pages = Inr a \<Longrightarrow>
           fst (professionalScrapeWebsite e url) = Inr (finalData e url (discovered mr) pages a)"
    and "sitemap_requests (snd (professionalScrapeWebsite e url)) = urlsToScrape url (discovered mr)"
proof -
  obtain site where site: "fst (enhancedScrapeWebsite e url) = Inr site"
    using enhancedScrapeWebsite_total by blast
  then obtain evs' where enh: "enhancedScrapeWebsite e url = (Inr site, evs')"
    by (cases "enhancedScrapeWebsite e url") auto
  from enhanced_requests[of e url] enh have evs': "sitemap_requests evs' = []" by simp
  obtain a0 where a0: "agg_pages e url agg_init pages = Inr a0"
    using agg_pages_Inr[OF agg_init_truthy, of e url pages] by blast
  from scrape_pages_requests[of e "length (urlsToScrape url (discovered mr))" 0
                              "urlsToScrape url (discovered mr)"] assms(3)
  have evs: "sitemap_requests evs = urlsToScrape url (discovered mr)" by simp
  show "pages = [] \<Longrightarrow> fst (professionalScrapeWebsite e url) = fst (enhancedScrapeWebsite e url)"
    using assms enh by (simp add: professionalScrapeWebsite_def Let_def)
  show "pages \<noteq> [] \<Longrightarrow> agg_pages e url agg_init pages = Inr a \<Longrightarrow>
           fst (professionalScrapeWebsite e url) = Inr (finalData e url (discovered mr) pages a)"
    using assms by (simp add: professionalScrapeWebsite_def Let_def)
  show "sitemap_requests (snd (professionalScrapeWebsite e url)) = urlsToScrape url (discovered mr)"
    using assms enh a0 evs evs'
    by (cases "pages = []")
       (simp_all add: professionalScrapeWebsite_def Let_def sitemap_requests_simps
                      sitemap_requests_append)
qed

lemma professional_good:
  assumes "plain_page_metadata e url"
  shows "\<exists>site. fst (professionalScrapeWebsite e url) = Inr site
     \<and> (contact_flag site = Some (JBool (has_contact site))
        \<or> (method_of site = Some (JStr ''fallback'') \<and> contact_flag site = None
            \<and> \<not> has_contact site))"
proof (cases "case fc_map e url of Inl err \<Rightarrow> True | Inr mr \<Rightarrow> discovered mr = []")
  case True
  from professional_no_links(1)[OF True] scrapeSinglePage_good[OF assms] show ?thesis by simp
next
  case False
  then obtain mr where mr: "fc_map e url = Inr mr" "discovered mr \<noteq> []"
    by (auto split: sum.splits)
  obtain pages evs where sp:
    "scrape_pages e (length (urlsToScrape url (discovered mr))) 0 (urlsToScrape url (discovered mr))
         = (pages, evs)"
    by (cases "scrape_pages e (length (urlsToScrape url (discovered mr))) 0
                 (urlsToScrape url (discovered mr))")
  show ?thesis
  proof (cases "pages = []")
    case True
    from professional_links(1)[OF mr sp True] enhancedScrapeWebsite_good[of e url]
    show ?thesis by simp
  next
    case False
    from agg_pages_Inr[OF agg_init_truthy, of e url pages] obtain a where
      a: "agg_pages e url agg_init pages = Inr a"
         "truthy (email (allBusinessInfo a)) = (email (allBusinessInfo a) \<noteq> None)"
         "truthy (phone (allBusinessInfo a)) = (phone (allBusinessInfo a) \<noteq> None)"
      by blast
    from professional_links(2)[OF mr sp False a(1)] finalData_good(1)[OF a(2,3)]
    show ?thesis by simp
  qed
qed

lemma professional_total: "\<exists>site. fst (professionalScrapeWebsite e url) = Inr site"
proof (cases "case fc_map e url of Inl err \<Rightarrow> True | Inr mr \<Rightarrow> discovered mr = []")
  case True
  from professional_no_links(1)[OF True] scrapeSinglePage_total[of e url] show ?thesis by simp
next
  case False
  then obtain mr where mr: "fc_map e url = Inr mr" "discovered mr \<noteq> []"
    by (auto split: sum.splits)
  obtain pages evs where sp:
    "scrape_pages e (length (urlsToScrape url (discovered mr))) 0 (urlsToScrape url (discovered mr))
         = (pages, evs)"
    by (cases "scrape_pages e (length (urlsToScrape url (discovered mr))) 0
                 (urlsToScrape url (discovered mr))")
  show ?thesis
  proof (cases "pages = []")
    case True
    from professional_links(1)[OF mr sp True] enhancedScrapeWebsite_total[of e url]
    show ?thesis by simp
  next
    case False
    from agg_pages_Inr[OF agg_init_truthy, of e url pages] obtain a where
      a: "agg_pages e url agg_init pages = Inr a" by blast
    from professional_links(2)[OF mr sp False a] show ?thesis by simp
  qed
qed


section \<open>Claims about the Scrape Orchestrator\<close>

lemma link_lower_eq: "link_lower l = toLowerCase (or_else (link_url l) [])"
  by (cases l) (auto simp: or_else_def truthy_def)

lemma is_priority_iff:
  "is_priority l = (\<exists>k \<in> set priorityKeywords. sublist k (toLowerCase (or_else (link_url l) [])))"
  by (simp add: is_priority_def list_ex_iff includes_str_sublist link_lower_eq)

lemma urlsToScrape_eq:
  "urlsToScrape url ds =
     take 8 (rev (remdups (rev
       ([Some url]
        @ map link_url (take 12 (filter (\<lambda>l. \<exists>k \<in> set priorityKeywords.
                                   sublist k (toLowerCase (or_else (link_url l) []))) ds))
        @ map link_url (take 8 ds)))))"
proof -
  have "filter is_priority ds = filter (\<lambda>l. \<exists>k \<in> set priorityKeywords.
                                   sublist k (toLowerCase (or_else (link_url l) []))) ds"
    by (rule filter_cong) (simp_all add: is_priority_iff)
  then show ?thesis
    by (simp only: urlsToScrape_def priorityUrls_def priorityPages_def new_Set_first_occurrences)
qed

lemma urlsToScrape_hd: "\<exists>others. urlsToScrape url ds = Some url # others"
  by (simp add: urlsToScrape_def priorityUrls_def new_Set_Cons)

lemma urlsToScrape_distinct: "distinct (urlsToScrape url ds)" "length (urlsToScrape url ds) \<le> 8"
  by (simp_all add: urlsToScrape_def new_Set_distinct)

text \<open>
  \<^bold>\<open>C3\<close>. When the mapping call returns at least one link, the pages the sitemap
  strategy asks the provider for are, in this order, the first 8 of the first occurrences
  in the list made of the homepage URL, then the first 12 discovered links whose URL in
  lower case contains one of the keywords as a substring, then the first 8 discovered
  links. The homepage is first, no page is asked for twice, and the cap of 8 is applied
  to the list without duplicates.
\<close>

theorem sitemap_pages_selected:
  assumes "fc_map e url = Inr mr" and "discovered mr \<noteq> []"
  shows "sitemap_requests (snd (professionalScrapeWebsite e url))
           = take 8 (rev (remdups (rev
               ([Some url]
                @ map link_url (take 12 (filter (\<lambda>l. \<exists>k \<in> set priorityKeywords.
                               sublist k (toLowerCase (or_else (link_url l) []))) (discovered mr)))
                @ map link_url (take 8 (discovered mr))))))
       \<and> priorityKeywords = [''about'', ''service'', ''contact'', ''product'', ''team'',
                              ''portfolio'', ''pricing'', ''features'']
       \<and> (\<exists>others. sitemap_requests (snd (professionalScrapeWebsite e url)) = Some url # others)
       \<and> distinct (sitemap_requests (snd (professionalScrapeWebsite e url)))
       \<and> length (sitemap_requests (snd (professionalScrapeWebsite e url))) \<le> 8"
proof -
  obtain pages evs where sp:
    "scrape_pages e (length (urlsToScrape url (discovered mr))) 0 (urlsToScrape url (discovered mr))
         = (pages, evs)"
    by (cases "scrape_pages e (length (urlsToScrape url (discovered mr))) 0
                 (urlsToScrape url (discovered mr))")
  have r: "sitemap_requests (snd (professionalScrapeWebsite e url)) = urlsToScrape url (discovered mr)"
    by (rule professional_links(3)[OF assms sp])
  show ?thesis
    unfolding r
    using urlsToScrape_eq[of url "discovered mr"] urlsToScrape_hd[of url "discovered mr"]
          urlsToScrape_distinct[of url "discovered mr"]
    by (simp only: priorityKeywords_def)
qed

theorem sitemap_pages_selected_witness:
  "sitemap_requests (snd (professionalScrapeWebsite example_env ''https://ex.com''))
     = [Some ''https://ex.com'', Some ''https://ex.com/About'', Some ''https://ex.com/blog'']"
proof -
  have m: "fc_map example_env ''https://ex.com''
             = Inr (Some \<lparr>mr_links = Some [LStr ''https://ex.com/blog'',
                                            LStr ''https://ex.com/About'',
                                            LObj (Some ''https://ex.com/blog'')]\<rparr>)"
    by (simp add: example_env_def)
  have d: "discovered (Some \<lparr>mr_links = Some [LStr ''https://ex.com/blog'',
                                            LStr ''https://ex.com/About'',
                                            LObj (Some ''https://ex.com/blog'')]\<rparr>) \<noteq> []"
    by (simp add: discovered_def)
  have v: "take 8 (rev (remdups (rev
               ([Some ''https://ex.com'']
                @ map link_url (take 12 (filter (\<lambda>l. \<exists>k \<in> set priorityKeywords.
                               sublist k (toLowerCase (or_else (link_url l) [])))
                      [LStr ''https://ex.com/blog'', LStr ''https://ex.com/About'',
                       LObj (Some ''https://ex.com/blog'')]))
                @ map link_url (take 8 [LStr ''https://ex.com/blog'', LStr ''https://ex.com/About'',
                       LObj (Some ''https://ex.com/blog'')])))))
           = [Some ''https://ex.com'', Some ''https://ex.com/About'', Some ''https://ex.com/blog'']"
    unfolding is_priority_iff[symmetric] by code_simp
  from sitemap_pages_selected[OF m d] v show ?thesis
    by (simp add: discovered_def)
qed


text \<open>
  \<^bold>\<open>C2\<close>. The orchestrator never raises: the request handler's choice, the sitemap
  strategy and the direct-fetch strategy each return a result object whatever the
  provider and the network do. When the mapping found links and every page request of the
  sitemap strategy fails, the result is the one of the direct-fetch strategy: its method
  is \<^verbatim>\<open>enhanced\<close> when the fetch answers, and when the fetch throws it is the terminal
  degraded result, with method \<^verbatim>\<open>fallback\<close> and the message of the error.
\<close>

theorem orchestrator_never_raises:
  "(\<exists>site. fst (scrape firecrawl e url) = Inr site)
   \<and> (\<exists>site. fst (professionalScrapeWebsite e url) = Inr site)
   \<and> (\<exists>site. fst (scrapeSinglePage e url) = Inr site)
   \<and> (\<exists>site. fst (enhancedScrapeWebsite e url) = Inr site)
   \<and> (fc_map e url = Inr mr \<and> discovered mr \<noteq> []
        \<and> (\<forall>i u. page_failed (fc_scrape e SitemapPage i u))
       \<longrightarrow> fst (professionalScrapeWebsite e url) = fst (enhancedScrapeWebsite e url))
   \<and> (fetch_text e url = Inr html
       \<longrightarrow> (\<exists>site. fst (enhancedScrapeWebsite e url) = Inr site
                  \<and> method_of site = Some (JStr ''enhanced'')))
   \<and> (fetch_text e url = Inl err
       \<longrightarrow> fst (enhancedScrapeWebsite e url) = Inr (fallback_site e url err)
           \<and> method_of (fallback_site e url err) = Some (JStr ''fallback'')
           \<and> obj_get (metadata (fallback_site e url err)) ''error'' = Some (JStr (message err)))"
proof (intro conjI impI)
  show "\<exists>site. fst (scrape firecrawl e url) = Inr site"
    using professional_total[of e url] enhancedScrapeWebsite_total[of e url]
    by (simp add: scrape_def)
  show "\<exists>site. fst (professionalScrapeWebsite e url) = Inr site"
    by (rule professional_total)
  show "\<exists>site. fst (scrapeSinglePage e url) = Inr site"
    by (rule scrapeSinglePage_total)
  show "\<exists>site. fst (enhancedScrapeWebsite e url) = Inr site"
    by (rule enhancedScrapeWebsite_total)
next
  assume a: "fc_map e url = Inr mr \<and> discovered mr \<noteq> []
        \<and> (\<forall>i u. page_failed (fc_scrape e SitemapPage i u))"
  obtain pages evs where sp:
    "scrape_pages e (length (urlsToScrape url (discovered mr))) 0 (urlsToScrape url (discovered mr))
         = (pages, evs)"
    by (cases "scrape_pages e (length (urlsToScrape url (discovered mr))) 0
                 (urlsToScrape url (discovered mr))")
  from a have "\<And>i u. page_failed (fc_scrape e SitemapPage i u)" by blast
  from scrape_pages_all_failed[OF this, of "length (urlsToScrape url (discovered mr))" 0
         "urlsToScrape url (discovered mr)"] sp
  have "pages = []" by simp
  with a sp show "fst (professionalScrapeWebsite e url) = fst (enhancedScrapeWebsite e url)"
    using professional_links(1)[of e url mr pages evs] by blast
next
  assume "fetch_text e url = Inr html"
  with enhanced_site_Inr[of e url html]
  show "\<exists>site. fst (enhancedScrapeWebsite e url) = Inr site \<and> method_of site = Some (JStr ''enhanced'')"
    by (auto simp: enhancedScrapeWebsite_fst)
next
  assume f: "fetch_text e url = Inl err"
  then show "fst (enhancedScrapeWebsite e url) = Inr (fallback_site e url err)"
    by (simp add: enhancedScrapeWebsite_fst)
  show "method_of (fallback_site e url err) = Some (JStr ''fallback'')"
    by (rule fallback_site_facts)
  show "obj_get (metadata (fallback_site e url err)) ''error'' = Some (JStr (message err))"
    by (rule fallback_site_facts)
qed

lemma example_env_facts:
  "fc_map example_env ''https://ex.com''
     = Inr (Some \<lparr>mr_links = Some [LStr ''https://ex.com/blog'', LStr ''https://ex.com/About'',
                                   LObj (Some ''https://ex.com/blog'')]\<rparr>)"
  "fc_map example_env_fetch ''https://ex.com''
     = Inr (Some \<lparr>mr_links = Some [LStr ''https://ex.com/blog'', LStr ''https://ex.com/About'',
                                   LObj (Some ''https://ex.com/blog'')]\<rparr>)"
  "discovered (Some \<lparr>mr_links = Some [LStr ''https://ex.com/blog'', LStr ''https://ex.com/About'',
                                   LObj (Some ''https://ex.com/blog'')]\<rparr>) \<noteq> []"
  "page_failed (fc_scrape example_env SitemapPage i u)"
  "page_failed (fc_scrape example_env_fetch SitemapPage i u)"
  "fetch_text example_env ''https://ex.com'' = Inl (JSError ''getaddrinfo ENOTFOUND'')"
  "fetch_text example_env_fetch ''https://ex.com'' = Inr ''<b>a@b.co</b>''"
  by (simp_all add: example_env_def example_env_fetch_def discovered_def page_failed_def)

theorem orchestrator_never_raises_witness:
  "fst (professionalScrapeWebsite example_env ''https://ex.com'')
     = Inr (fallback_site example_env ''https://ex.com'' (JSError ''getaddrinfo ENOTFOUND''))
   \<and> obj_get (metadata (fallback_site example_env ''https://ex.com'' (JSError ''getaddrinfo ENOTFOUND'')))
          ''error'' = Some (JStr ''getaddrinfo ENOTFOUND'')
   \<and> (\<exists>site. fst (professionalScrapeWebsite example_env_fetch ''https://ex.com'') = Inr site
              \<and> method_of site = Some (JStr ''enhanced''))"
  using orchestrator_never_raises[of True example_env "''https://ex.com''"
          "Some \<lparr>mr_links = Some [LStr ''https://ex.com/blog'', LStr ''https://ex.com/About'',
                                   LObj (Some ''https://ex.com/blog'')]\<rparr>"
          "[]" "JSError ''getaddrinfo ENOTFOUND''"]
        orchestrator_never_raises[of True example_env_fetch "''https://ex.com''"
          "Some \<lparr>mr_links = Some [LStr ''https://ex.com/blog'', LStr ''https://ex.com/About'',
                                   LObj (Some ''https://ex.com/blog'')]\<rparr>"
          "''<b>a@b.co</b>''" "JSError ''x''"]
  by (simp add: example_env_facts)


text \<open>
  \<^bold>\<open>C1\<close> (as amended). In a result of the sitemap strategy and of the direct-fetch
  strategy the metadata property \<^verbatim>\<open>hasContactInfo\<close> is the boolean "the business info has
  an email or a phone"; so it is in a result of the single-page strategy when the
  metadata the provider returned has no property \<^verbatim>\<open>hasContactInfo\<close> of its own (it is
  spread over the computed one). The terminal degraded result has no such property at
  all, and its business info is empty. Hence, for whatever the orchestrator returns when
  the provider's single-page metadata is plain: the property is that boolean, or the
  result is the degraded one, without the property and without contact data.
\<close>

theorem hasContactInfo_invariant:
  "(plain_page_metadata e url \<and> fst (scrape firecrawl e url) = Inr site
      \<longrightarrow> contact_flag site = Some (JBool (has_contact site))
          \<or> (method_of site = Some (JStr ''fallback'') \<and> contact_flag site = None
              \<and> \<not> has_contact site))
   \<and> (agg_pages e url agg_init pages = Inr a
      \<longrightarrow> contact_flag (finalData e url ds pages a)
            = Some (JBool (has_contact (finalData e url ds pages a))))
   \<and> (single_site e url (Some r) = Inr s1
        \<and> (case pr_metadata r of None \<Rightarrow> True | Some m \<Rightarrow> obj_get m ''hasContactInfo'' = None)
      \<longrightarrow> contact_flag s1 = Some (JBool (has_contact s1)))
   \<and> (enhanced_site e url html = Inr s2 \<longrightarrow> contact_flag s2 = Some (JBool (has_contact s2)))
   \<and> contact_flag (fallback_site e url err) = None
   \<and> \<not> has_contact (fallback_site e url err)"
proof (intro conjI impI)
  assume a: "plain_page_metadata e url \<and> fst (scrape firecrawl e url) = Inr site"
  show "contact_flag site = Some (JBool (has_contact site))
          \<or> (method_of site = Some (JStr ''fallback'') \<and> contact_flag site = None
              \<and> \<not> has_contact site)"
  proof (cases firecrawl)
    case True
    with a professional_good[of e url] show ?thesis by (auto simp: scrape_def)
  next
    case False
    with a enhancedScrapeWebsite_good[of e url] show ?thesis by (auto simp: scrape_def)
  qed
next
  assume "agg_pages e url agg_init pages = Inr a"
  with agg_pages_Inr[OF agg_init_truthy, of e url pages]
  have "truthy (email (allBusinessInfo a)) = (email (allBusinessInfo a) \<noteq> None)"
       "truthy (phone (allBusinessInfo a)) = (phone (allBusinessInfo a) \<noteq> None)"
    by auto
  then show "contact_flag (finalData e url ds pages a)
            = Some (JBool (has_contact (finalData e url ds pages a)))"
    by (rule finalData_good(1))
next
  assume "single_site e url (Some r) = Inr s1
        \<and> (case pr_metadata r of None \<Rightarrow> True | Some m \<Rightarrow> obj_get m ''hasContactInfo'' = None)"
  then show "contact_flag s1 = Some (JBool (has_contact s1))"
    using single_site_good[of e url "Some r" s1] by simp
next
  assume "enhanced_site e url html = Inr s2"
  with enhanced_site_Inr[of e url html] show "contact_flag s2 = Some (JBool (has_contact s2))"
    by auto
next
  show "contact_flag (fallback_site e url err) = None"
    by (rule fallback_site_facts)
  show "\<not> has_contact (fallback_site e url err)"
    by (rule fallback_site_facts)
qed

lemma example_scrapes:
  "fst (scrape False example_env_fetch ''https://ex.com'')
     = enhanced_site example_env_fetch ''https://ex.com'' ''<b>a@b.co</b>''"
  "map_sum id (\<lambda>s. email (businessInfo s))
       (enhanced_site example_env_fetch ''https://ex.com'' ''<b>a@b.co</b>'')
     = Inr (Some ''a@b.co'')"
  "plain_page_metadata example_env_fetch ''https://ex.com''"
  by code_simp+

theorem hasContactInfo_invariant_witness:
  "map_sum id (\<lambda>s. email (businessInfo s)) (fst (scrape False example_env_fetch ''https://ex.com''))
     = Inr (Some ''a@b.co'')
   \<and> map_sum id contact_flag (fst (scrape False example_env_fetch ''https://ex.com''))
     = Inr (Some (JBool True))"
proof -
  obtain site where site:
    "enhanced_site example_env_fetch ''https://ex.com'' ''<b>a@b.co</b>'' = Inr site"
    using enhanced_site_Inr by blast
  with example_scrapes(2) have em: "email (businessInfo site) = Some ''a@b.co''" by simp
  from site example_scrapes(1) have s: "fst (scrape False example_env_fetch ''https://ex.com'') = Inr site"
    by simp
  from hasContactInfo_invariant[where e = example_env_fetch and url = "''https://ex.com''"
         and firecrawl = False and site = site]
       example_scrapes(3) s em
  have "contact_flag site = Some (JBool True)"
    by (auto simp: has_contact_def)
  with s em show ?thesis by simp
qed

text \<open>
  \<^bold>\<open>C1\<close> (as stated) fails on the single-page path: the provider's metadata carries
  \<^verbatim>\<open>hasContactInfo: true\<close>, the page has neither an email nor a phone, and the result
  says \<^verbatim>\<open>true\<close>.
\<close>

theorem hasContactInfo_override_counterexample:
  "map_sum id contact_flag (fst (scrape True example_env_meta ''https://ex.com'')) = Inr (Some (JBool True))
   \<and> map_sum id has_contact (fst (scrape True example_env_meta ''https://ex.com'')) = Inr False
   \<and> map_sum id method_of (fst (scrape True example_env_meta ''https://ex.com''))
       = Inr (Some (JStr ''firecrawl-single''))"
  by code_simp


section \<open>Properties of the LLM Gateway and the Generation Pipeline\<close>


lemma sublist_concat: "x \<in> set xs \<Longrightarrow> sublist x (concat xs)"
proof (induction xs)
  case Nil
  then show ?case by simp
next
  case (Cons y ys)
  show ?case
  proof (cases "x = y")
    case True
    then show ?thesis by (simp add: sublist_append_rightI)
  next
    case False
    with Cons have "sublist x (concat ys)" by simp
    then obtain ps ss where "concat ys = ps @ x @ ss" by (auto simp: sublist_def)
    then have "concat (y # ys) = (y @ ps) @ x @ ss" by simp
    then show ?thesis unfolding sublist_def by blast
  qed
qed

lemma fallback_contains_name: "sublist (tpl (bf_name bi)) (generateFallbackWebsite bi)"
  unfolding generateFallbackWebsite_def by (rule sublist_concat) simp

lemma fallback_nonempty: "generateFallbackWebsite bi \<noteq> []"
  by (simp add: generateFallbackWebsite_def)



lemma generateWebsiteWithAI_fst:
  "fst (generateWebsiteWithAI cfg le clock sd bi instr) =
     (case and_then (fst (callLLM cfg le (site_prompt sd bi instr)
                            \<lparr>o_maxTokens = Some (maxWebsiteTokens cfg), o_model = None\<rparr>))
                    cleanHtml_of of
        Inr cleanHtml \<Rightarrow>
          Inr \<lparr>g_html = cleanHtml,
               g_title = ''Modern '' @ tpl (bf_name bi) @ '' Website'',
               g_description = ''AI-generated modern website for '' @ tpl (bf_name bi),
               g_generatedAt = clock,
               g_error = None\<rparr>
      | Inl error \<Rightarrow>
          Inr \<lparr>g_html = generateFallbackWebsite bi,
               g_title = tpl (bf_name bi) @ '' Website'',
               g_description = ''Professional website for '' @ tpl (bf_name bi),
               g_generatedAt = clock,
               g_error = Some (message error)\<rparr>)"
  by (auto simp: generateWebsiteWithAI_def Let_def try_catch_def and_then_def
           split: prod.splits sum.splits)

lemma generateWebsiteWithAI_total:
  "\<exists>site. fst (generateWebsiteWithAI cfg le clock sd bi instr) = Inr site"
  unfolding generateWebsiteWithAI_fst by (simp split: sum.splits)



section \<open>Claims about the Generation Pipeline\<close>

text \<open>
  \<^bold>\<open>C6\<close> (as amended). Site synthesis never fails. When the LLM call throws or
  returns no text (\<^verbatim>\<open>null\<close> or \<^verbatim>\<open>undefined\<close>), the result is built from the fallback
  template: its html is not empty, contains the business name, and the result carries the
  error message. The template itself is a total function of the business facts. A reply
  that is a text, the empty text included, is not a failure: the result's html is that text
  without its code fences, trimmed, and there is no error marker.
\<close>

theorem site_synthesis_fallback:
  "(\<exists>site. fst (generateWebsiteWithAI cfg le clock sd bi instr) = Inr site)
   \<and> ((\<exists>err. fst (callLLM cfg le (site_prompt sd bi instr)
                      \<lparr>o_maxTokens = Some (maxWebsiteTokens cfg), o_model = None\<rparr>) = Inl err)
        \<or> fst (callLLM cfg le (site_prompt sd bi instr)
                      \<lparr>o_maxTokens = Some (maxWebsiteTokens cfg), o_model = None\<rparr>) = Inr None
       \<longrightarrow> (\<exists>site. fst (generateWebsiteWithAI cfg le clock sd bi instr) = Inr site
              \<and> g_html site = generateFallbackWebsite bi
              \<and> g_html site \<noteq> []
              \<and> sublist (tpl (bf_name bi)) (g_html site)
              \<and> g_error site \<noteq> None))
   \<and> generateFallbackWebsite bi \<noteq> []
   \<and> (bf_name bi = Some name \<longrightarrow> sublist name (generateFallbackWebsite bi))
   \<and> (fst (callLLM cfg le (site_prompt sd bi instr)
                      \<lparr>o_maxTokens = Some (maxWebsiteTokens cfg), o_model = None\<rparr>) = Inr (Some reply)
       \<longrightarrow> (\<exists>site. fst (generateWebsiteWithAI cfg le clock sd bi instr) = Inr site
              \<and> g_html site = trim (replace_all False (lits ''```'') []
                                      (replace_all False (lits ''```html'') [] reply))
              \<and> g_error site = None))"
proof (intro conjI impI)
  show "\<exists>site. fst (generateWebsiteWithAI cfg le clock sd bi instr) = Inr site"
    by (rule generateWebsiteWithAI_total)
  show "generateFallbackWebsite bi \<noteq> []"
    by (rule fallback_nonempty)
next
  assume "(\<exists>err. fst (callLLM cfg le (site_prompt sd bi instr)
                      \<lparr>o_maxTokens = Some (maxWebsiteTokens cfg), o_model = None\<rparr>) = Inl err)
        \<or> fst (callLLM cfg le (site_prompt sd bi instr)
                      \<lparr>o_maxTokens = Some (maxWebsiteTokens cfg), o_model = None\<rparr>) = Inr None"
  then have "\<exists>e. and_then (fst (callLLM cfg le (site_prompt sd bi instr)
                      \<lparr>o_maxTokens = Some (maxWebsiteTokens cfg), o_model = None\<rparr>))
                    cleanHtml_of = Inl e"
    by (auto simp: cleanHtml_of_def)
  then show "\<exists>site. fst (generateWebsiteWithAI cfg le clock sd bi instr) = Inr site
              \<and> g_html site = generateFallbackWebsite bi
              \<and> g_html site \<noteq> []
              \<and> sublist (tpl (bf_name bi)) (g_html site)
              \<and> g_error site \<noteq> None"
    unfolding generateWebsiteWithAI_fst
    using fallback_nonempty[of bi] fallback_contains_name[of bi] by auto
next
  assume "bf_name bi = Some name"
  with fallback_contains_name[of bi] show "sublist name (generateFallbackWebsite bi)"
    by (simp add: tpl_def)
next
  assume "fst (callLLM cfg le (site_prompt sd bi instr)
                      \<lparr>o_maxTokens = Some (maxWebsiteTokens cfg), o_model = None\<rparr>) = Inr (Some reply)"
  then show "\<exists>site. fst (generateWebsiteWithAI cfg le clock sd bi instr) = Inr site
              \<and> g_html site = trim (replace_all False (lits ''```'') []
                                      (replace_all False (lits ''```html'') [] reply))
              \<and> g_error site = None"
    unfolding generateWebsiteWithAI_fst by (simp add: cleanHtml_of_def)
qed

lemma example_llm_replies:
  "fst (callLLM example_config example_llm_down (site_prompt None example_facts [])
          \<lparr>o_maxTokens = Some (maxWebsiteTokens example_config), o_model = None\<rparr>)
     = Inl (JSError ''quota exceeded'')"
  "fst (callLLM example_config example_llm_empty (site_prompt None example_facts [])
          \<lparr>o_maxTokens = Some (maxWebsiteTokens example_config), o_model = None\<rparr>)
     = Inr (Some [])"
  "bf_name example_facts = Some ''Acme''"
  by (simp_all add: callLLM_def example_config_def initial_apiConfig_def example_llm_down_def
                    example_llm_empty_def send_request_def truthy_def Let_def example_facts_def)

theorem site_synthesis_fallback_witness:
  "map_sum id g_html (fst (generateWebsiteWithAI example_config example_llm_down [] None example_facts []))
     = Inr (generateFallbackWebsite example_facts)
   \<and> sublist ''Acme'' (generateFallbackWebsite example_facts)
   \<and> map_sum id g_error (fst (generateWebsiteWithAI example_config example_llm_empty [] None example_facts []))
     = Inr None"
  using site_synthesis_fallback[of example_config example_llm_down "[]" None example_facts "[]"
          "''Acme''" "[]"]
        site_synthesis_fallback[of example_config example_llm_empty "[]" None example_facts "[]"
          "''Acme''" "[]"]
  by (auto simp: example_llm_replies)

text \<open>
  \<^bold>\<open>C6\<close> (as stated) fails for an empty result: the provider answers with the empty
  text, and the html of the generated site is empty, with no fallback and no error marker.
\<close>

theorem site_synthesis_empty_counterexample:
  "map_sum id g_html (fst (generateWebsiteWithAI example_config example_llm_empty [] None example_facts []))
     = Inr []
   \<and> map_sum id g_error (fst (generateWebsiteWithAI example_config example_llm_empty [] None example_facts []))
     = Inr None
   \<and> bf_name example_facts = Some ''Acme''"
  by code_simp






section \<open>Properties of the Request Layer\<close>



















section \<open>Claims about the Request Layer\<close>





section \<open>Properties of the Project Store\<close>




















section \<open>Properties of the Site Publisher\<close>










end
